theory Spec2Isabelle
  imports Complex_Main "HOL-Library.Sublist"
begin

section \<open>Form-to-PDF layout engine of the form filler\<close>

text \<open>
  The two generators, \<^verbatim>\<open>AcknowledgmentPDFGenerator\<close> (src/pdf/acknowledgment_pdf.py) and
  \<^verbatim>\<open>TransferPDFGenerator\<close> (src/pdf/transfer_pdf.py), are embedded as HOL functions.
  Lengths are points, kept as exact rationals (the source computes them in floating point;
  every comparison used below is far from a rounding boundary). The canvas is the list of
  drawing operations issued, the file system a map from paths to written documents.
\<close>

subsection \<open>Python helpers\<close>

text \<open>\<^verbatim>\<open>int(x)\<close> on a float: truncation towards zero.\<close>

definition py_int :: "rat \<Rightarrow> int" where
  "py_int x = (if 0 \<le> x then \<lfloor>x\<rfloor> else \<lceil>x\<rceil>)"

text \<open>\<^verbatim>\<open>text[:k]\<close>: a negative \<open>k\<close> counts from the end.\<close>

definition py_take :: "int \<Rightarrow> 'a list \<Rightarrow> 'a list" where
  "py_take k xs = (if 0 \<le> k then take (nat k) xs else take (nat (int (length xs) + k)) xs)"

text \<open>
  A \<^typ>\<open>char\<close> stands for a code point below 256; strings with other code points are
  outside the model. Among these, \<^verbatim>\<open>str.strip()\<close> and \<^verbatim>\<open>str.split()\<close> treat as white
  space: tab, line feed, vertical tab, form feed, carriage return, the separators 0x1C to
  0x1F, the space, the next-line character 0x85 and the no-break space 0xA0.
\<close>

definition whitespace :: "char list" where
  "whitespace = [CHR 0x09, CHR 0x0A, CHR 0x0B, CHR 0x0C, CHR 0x0D,
                 CHR 0x1C, CHR 0x1D, CHR 0x1E, CHR 0x1F, CHR '' '', CHR 0x85, CHR 0xA0]"

definition is_space :: "char \<Rightarrow> bool" where
  "is_space ch = (ch \<in> set whitespace)"

definition py_strip :: "string \<Rightarrow> string" where
  "py_strip s = rev (dropWhile is_space (rev (dropWhile is_space s)))"

text \<open>\<^verbatim>\<open>text.split()\<close>: the maximal runs of characters that are not white space.\<close>

fun split_acc :: "string \<Rightarrow> string \<Rightarrow> string list" where
  "split_acc cur [] = (if cur = [] then [] else [cur])"
| "split_acc cur (ch # rest) =
     (if is_space ch then (if cur = [] then split_acc [] rest else cur # split_acc [] rest)
      else split_acc (cur @ [ch]) rest)"

definition py_split :: "string \<Rightarrow> string list" where
  "py_split text = split_acc [] text"

text \<open>\<^verbatim>\<open>sep.join(parts)\<close>.\<close>

fun py_join :: "string \<Rightarrow> string list \<Rightarrow> string" where
  "py_join sep [] = []"
| "py_join sep [w] = w"
| "py_join sep (w # ws) = w @ sep @ py_join sep ws"

text \<open>\<^verbatim>\<open>s.replace(old, new)\<close> for one-character strings.\<close>

definition replace_char :: "char \<Rightarrow> char \<Rightarrow> string \<Rightarrow> string" where
  "replace_char old new s = map (\<lambda>ch. if ch = old then new else ch) s"

text \<open>\<^verbatim>\<open>str(n)\<close> for a natural number: its decimal digits.\<close>

definition digit_char :: "nat \<Rightarrow> char" where
  "digit_char d = char_of (48 + d)"

fun py_str :: "nat \<Rightarrow> string" where
  "py_str n = (if n < 10 then [digit_char n] else py_str (n div 10) @ [digit_char (n mod 10)])"

declare py_str.simps [simp del]

text \<open>
  \<^verbatim>\<open>os.path.join(a, b)\<close> as \<^verbatim>\<open>posixpath\<close> defines it: an absolute second part replaces
  the first; otherwise the parts are joined by one slash.
\<close>

definition path_join :: "string \<Rightarrow> string \<Rightarrow> string" where
  "path_join a b =
     (if b \<noteq> [] \<and> hd b = CHR ''/'' then b
      else if a = [] \<or> last a = CHR ''/'' then a @ b
      else a @ ''/'' @ b)"

text \<open>
  \<^verbatim>\<open>canvas.stringWidth(text, fontName, fontSize)\<close> belongs to the rendering library, not
  to the repository: it is a parameter of every function that measures text.
\<close>

type_synonym 'w string_width = "string \<Rightarrow> string \<Rightarrow> nat \<Rightarrow> 'w"

text \<open>A sample measure for evaluating the model: every glyph is half the font size wide.\<close>

definition half_em_width :: "rat string_width" where
  "half_em_width text font_name font_size = of_nat (length text) * of_nat font_size / 2"

subsection \<open>Units and page size\<close>

text \<open>The rendering library's \<^verbatim>\<open>inch\<close>, \<^verbatim>\<open>mm\<close> and \<^verbatim>\<open>A4\<close>, in points.\<close>

definition inch :: rat where
  "inch = 72"

definition mm :: rat where
  "mm = inch / 25.4"

definition A4_width :: rat where
  "A4_width = 210 * mm"

definition A4_height :: rat where
  "A4_height = 297 * mm"

subsection \<open>Form data\<close>

text \<open>
  The form data is a dictionary read with \<^verbatim>\<open>get(key, "")\<close> throughout: a missing key
  and an empty string are the same value, so each key is a field. The fields
  \<^verbatim>\<open>floor\<close> and \<^verbatim>\<open>section\<close> carry the suffix \<open>_field\<close>; an asset's
  \<^verbatim>\<open>store_code\<close> and \<^verbatim>\<open>description\<close> carry the prefix \<open>asset_\<close>.
\<close>

record item =
  store_code :: string
  description :: string
  qty :: string
  purchase_date :: string

record ack_data =
  items :: "item list"
  custodian_name :: string
  emp_id :: string
  department :: string
  building :: string
  building_other :: string
  floor_field :: string
  floor_other :: string
  section_field :: string
  device_type :: string

record asset =
  asset_store_code :: string
  asset_name :: string
  asset_description :: string
  old_asset_no :: string

record transfer_data =
  assets :: "asset list"
  from_name :: string
  from_department :: string
  from_emp_id :: string
  to_name :: string
  to_department :: string
  to_emp_id :: string

subsection \<open>File names\<close>

text \<open>\<^verbatim>\<open>invalid_chars = '<>:"/\\|?*'\<close>, each replaced by an underscore in turn.\<close>

definition invalid_chars :: "char list" where
  "invalid_chars = [CHR ''<'', CHR ''>'', CHR '':'', CHR 0x22, CHR ''/'', CHR 0x5C,
                    CHR ''|'', CHR ''?'', CHR ''*'']"

definition clean :: "string \<Rightarrow> string" where
  "clean s = foldl (\<lambda>s ch. replace_char ch CHR ''_'' s) s invalid_chars"

text \<open>\<^verbatim>\<open>x.strip() or "Unknown"\<close>.\<close>

definition strip_or_unknown :: "string \<Rightarrow> string" where
  "strip_or_unknown x = (if py_strip x = [] then ''Unknown'' else py_strip x)"

definition ack_generate_filename :: "ack_data \<Rightarrow> string" where
  "ack_generate_filename form_data =
     (let emp = strip_or_unknown (emp_id form_data);
          name = strip_or_unknown (custodian_name form_data);
          its = items form_data;
          asset_nm =
            (if its \<noteq> [] \<and> description (hd its) \<noteq> []
             then (let a = py_strip (description (hd its))
                   in if length a > 30 then take 30 a else a)
             else ''Asset'')
      in clean emp @ '' - '' @ clean name @ '' - acknowledgement form '' @ clean asset_nm
           @ ''.pdf'')"

definition transfer_generate_filename :: "transfer_data \<Rightarrow> string" where
  "transfer_generate_filename form_data =
     (let from_emp = strip_or_unknown (from_emp_id form_data);
          from_nm = strip_or_unknown (from_name form_data);
          to_emp = strip_or_unknown (to_emp_id form_data);
          to_nm = strip_or_unknown (to_name form_data)
      in ''Asset Transfer - From '' @ clean from_emp @ ''-'' @ clean from_nm @ '' to ''
           @ clean to_emp @ ''-'' @ clean to_nm @ ''.pdf'')"

subsection \<open>The naming rule as the specification words it\<close>






subsection \<open>Unique output path (the same code in both generators)\<close>

text \<open>
  The file system is a map from paths to what was written there;
  \<^verbatim>\<open>os.path.exists(p)\<close> is \<open>fs p \<noteq> None\<close>. The search
  \<^verbatim>\<open>while True: ... counter += 1\<close> has no bound of its own: it is a partial function,
  \<open>None\<close> when it does not return.
\<close>

definition candidate :: "string \<Rightarrow> string \<Rightarrow> nat \<Rightarrow> string" where
  "candidate output_dir base_name counter =
     path_join output_dir (base_name @ '' (#'' @ py_str counter @ '').pdf'')"

partial_function (option) find_unique :: "(string \<rightharpoonup> 'a) \<Rightarrow> string \<Rightarrow> string \<Rightarrow> nat \<Rightarrow> string option" where
  "find_unique fs output_dir base_name counter =
     (if fs (candidate output_dir base_name counter) = None
      then Some (candidate output_dir base_name counter)
      else find_unique fs output_dir base_name (counter + 1))"

definition get_unique_filepath :: "(string \<rightharpoonup> 'a) \<Rightarrow> string \<Rightarrow> string \<Rightarrow> string option" where
  "get_unique_filepath fs output_dir filename =
     (if fs (path_join output_dir filename) = None then Some (path_join output_dir filename)
      else find_unique fs output_dir (take (length filename - 4) filename) 2)"

subsection \<open>Word wrap (declaration and device paragraphs)\<close>

text \<open>
  The same loop is written out in \<^verbatim>\<open>_draw_declaration\<close> and in
  \<^verbatim>\<open>_draw_device_selection\<close> of the Acknowledgment generator:
  \<^verbatim>\<open>for word in words:
      current_line.append(word)
      test_line = " ".join(current_line)
      if c.stringWidth(test_line, font, size) > max_width:
          current_line.pop()
          lines.append(" ".join(current_line))
          current_line = [word]
  if current_line:
      lines.append(" ".join(current_line))\<close>
\<close>

fun wrap_loop :: "(string \<Rightarrow> 'w::linorder) \<Rightarrow> 'w \<Rightarrow> string list \<Rightarrow> string list \<Rightarrow> string list \<Rightarrow> string list" where
  "wrap_loop sw max_width lines current_line [] =
     (if current_line \<noteq> [] then lines @ [py_join '' '' current_line] else lines)"
| "wrap_loop sw max_width lines current_line (word # ws) =
     (if sw (py_join '' '' (current_line @ [word])) > max_width
      then wrap_loop sw max_width (lines @ [py_join '' '' current_line]) [word] ws
      else wrap_loop sw max_width lines (current_line @ [word]) ws)"

definition word_wrap :: "'w::linorder string_width \<Rightarrow> string \<Rightarrow> 'w \<Rightarrow> string \<Rightarrow> nat \<Rightarrow> string list" where
  "word_wrap c text max_width font_name font_size =
     wrap_loop (\<lambda>s. c s font_name font_size) max_width [] [] (py_split text)"

subsection \<open>Table cell text (both tables)\<close>

text \<open>
  \<^verbatim>\<open>max_chars = int(width / 5.5)
  if len(text) > max_chars and col != 0:
      text = text[:max_chars]\<close>
\<close>

definition cell_text :: "nat \<Rightarrow> rat \<Rightarrow> string \<Rightarrow> string" where
  "cell_text col width text =
     (let max_chars = py_int (width / 5.5)
      in if int (length text) > max_chars \<and> col \<noteq> 0 then py_take max_chars text else text)"

subsection \<open>Truncation with an ellipsis (Transfer form fields)\<close>

text \<open>
  \<^verbatim>\<open>while len(text) > 0 and c.stringWidth(text + "...", font_name, font_size) > max_width:
      text = text[:-1]\<close>
\<close>

function drop_until_fits :: "'w::linorder string_width \<Rightarrow> string \<Rightarrow> 'w \<Rightarrow> string \<Rightarrow> nat \<Rightarrow> string" where
  "drop_until_fits c text max_width font_name font_size =
     (if length text > 0 \<and> c (text @ ''...'') font_name font_size > max_width
      then drop_until_fits c (butlast text) max_width font_name font_size
      else text)"
  by pat_completeness auto
termination
  by (relation "measure (\<lambda>(c, text, max_width, font_name, font_size). length text)") auto

declare drop_until_fits.simps [simp del]

definition truncate_text :: "'w::linorder string_width \<Rightarrow> string \<Rightarrow> 'w \<Rightarrow> string \<Rightarrow> nat \<Rightarrow> string" where
  "truncate_text c text max_width font_name font_size =
     (if text = [] then []
      else if c text font_name font_size \<le> max_width then text
      else (let text' = drop_until_fits c text max_width font_name font_size
            in if text' \<noteq> [] then text' @ ''...'' else []))"

subsection \<open>The canvas\<close>

text \<open>
  A render is the list of drawing operations in the order the canvas receives them. One
  operation stands for the canvas calls of one element (a caption, a labelled field, a
  radio button, a table row), at the cursor position the source draws it and with the text
  it draws; fonts, colours, horizontal positions, the optional logo image and the date text
  are left out. \<open>ShowPage\<close> is \<^verbatim>\<open>c.showPage()\<close>: it ends the current page.
\<close>

datatype draw_op =
    ShowPage
  | Heading rat string
  | DateStamp rat
  | TableHeader rat
  | DataRow rat "string list"
  | Field rat string string
  | Radio rat string bool
  | TextLine rat string
  | SignatureBox rat rat rat rat

text \<open>\<^verbatim>\<open>for line in lines: c.drawString(x, y, line); y -= step\<close>.\<close>

fun draw_lines :: "rat \<Rightarrow> rat \<Rightarrow> string list \<Rightarrow> draw_op list \<times> rat" where
  "draw_lines y step [] = ([], y)"
| "draw_lines y step (line # rest) =
     (let (ops, y') = draw_lines (y - step) step rest in (TextLine y line # ops, y'))"

subsection \<open>Acknowledgment form: layout\<close>

definition ack_width :: rat where
  "ack_width = A4_width"

definition ack_height :: rat where
  "ack_height = A4_height"

definition ack_margin :: rat where
  "ack_margin = 0.6 * inch"

definition ack_bottom_margin :: rat where
  "ack_bottom_margin = 0.5 * inch"

definition ack_check_page_break :: "rat \<Rightarrow> rat \<Rightarrow> draw_op list \<times> rat" where
  "ack_check_page_break y needed_space =
     (if y - needed_space < ack_bottom_margin then ([ShowPage], ack_height - ack_margin)
      else ([], y))"

definition ack_draw_header :: "rat \<Rightarrow> draw_op list \<times> rat" where
  "ack_draw_header y =
     (let y1 = y - 1.1 * inch;
          y2 = y1 - 0.35 * inch
      in ([Heading y1 ''Main Store'', Heading y2 ''Acknowledgement of Receipt''],
          y2 - 0.4 * inch))"

definition ack_draw_date :: "rat \<Rightarrow> draw_op list \<times> rat" where
  "ack_draw_date y = ([DateStamp y], y)"

definition ack_col_widths :: "rat list" where
  "ack_col_widths = [0.35 * inch, 1.1 * inch, 3.2 * inch, 0.45 * inch, 1.1 * inch]"

definition ack_row_height :: rat where
  "ack_row_height = 0.32 * inch"

definition ack_header_height :: rat where
  "ack_header_height = 0.4 * inch"

definition ack_column_text :: "item \<Rightarrow> nat \<Rightarrow> nat \<Rightarrow> string" where
  "ack_column_text item row_num col =
     (if col = 0 then py_str (row_num + 1)
      else if col = 1 then store_code item
      else if col = 2 then description item
      else if col = 3 then qty item
      else purchase_date item)"

text \<open>The texts of one row; none when \<^verbatim>\<open>row_num < len(items)\<close> fails (rectangles only).\<close>

definition ack_row_cells :: "item list \<Rightarrow> nat \<Rightarrow> string list" where
  "ack_row_cells its row_num =
     (if row_num < length its
      then map (\<lambda>(col, width). cell_text col width (ack_column_text (its ! row_num) row_num col))
             (enumerate 0 ack_col_widths)
      else [])"

text \<open>
  One pass of \<^verbatim>\<open>for row_num in range(num_rows)\<close>: the page-break check with the header
  redrawn on the new page, then the row.
\<close>

definition ack_draw_row :: "item list \<Rightarrow> draw_op list \<times> rat \<Rightarrow> nat \<Rightarrow> draw_op list \<times> rat" where
  "ack_draw_row its state row_num =
     (let (ops, y) = state;
          (ops, y) =
            (if y - ack_row_height < ack_bottom_margin + 4 * inch
             then (ops @ [ShowPage, TableHeader (ack_height - ack_margin)],
                   ack_height - ack_margin - ack_header_height)
             else (ops, y))
      in (ops @ [DataRow y (ack_row_cells its row_num)], y - ack_row_height))"

definition ack_draw_items_table :: "rat \<Rightarrow> item list \<Rightarrow> draw_op list \<times> rat" where
  "ack_draw_items_table y its =
     (let num_rows = (if its \<noteq> [] then length its else 1);
          (ops, y') = foldl (ack_draw_row its) ([TableHeader y], y - ack_header_height)
                        [0..<num_rows]
      in (ops, y' - 0.25 * inch))"

text \<open>
  The cursor with which the pass of the loop for \<open>row_num\<close> starts: the one the passes
  before it leave.
\<close>

definition ack_row_cursor :: "rat \<Rightarrow> item list \<Rightarrow> nat \<Rightarrow> rat" where
  "ack_row_cursor y its row_num =
     snd (foldl (ack_draw_row its) ([TableHeader y], y - ack_header_height) [0..<row_num])"

definition ack_draw_custodian_details :: "rat \<Rightarrow> ack_data \<Rightarrow> draw_op list \<times> rat" where
  "ack_draw_custodian_details y data =
     (let y1 = y - 0.28 * inch;
          y2 = y1 - 0.35 * inch
      in ([Heading y ''Custodian Details:'',
           Field y1 ''Name:'' (custodian_name data),
           Field y1 ''Emp. ID:'' (emp_id data),
           Field y2 ''College / Department:'' (department data)],
          y2 - 0.4 * inch))"

definition buildings :: "string list" where
  "buildings = [''SZH'', ''J1'', ''J2'', ''Student Hub'', ''Hostel'', ''Others:'']"

definition floors :: "string list" where
  "floors = [''Ground'', ''1st'', ''2nd'', ''3rd'', ''Others:'']"

definition sections :: "string list" where
  "sections = [''Male'', ''Female'']"

text \<open>
  A column of radio buttons, one line apart; the entry \<^verbatim>\<open>"Others:"\<close> is filled, and
  followed by the free text, when the selection is \<^verbatim>\<open>"Others"\<close>.
\<close>

definition radio_column :: "rat \<Rightarrow> rat \<Rightarrow> string list \<Rightarrow> string \<Rightarrow> string \<Rightarrow> draw_op list" where
  "radio_column y line_height names selected other =
     concat (map (\<lambda>(i, name).
        Radio (y - of_nat i * line_height) name
          (name = selected \<or> (name = ''Others:'' \<and> selected = ''Others''))
        # (if name = ''Others:'' \<and> selected = ''Others''
           then [Field (y - of_nat i * line_height) name other] else []))
       (enumerate 0 names))"

definition ack_draw_location_section :: "rat \<Rightarrow> ack_data \<Rightarrow> draw_op list \<times> rat" where
  "ack_draw_location_section y data =
     (let y1 = y - 0.32 * inch;
          line_height = 0.24 * inch
      in ([Heading y ''Location: Building'', Heading y ''Floor'', Heading y ''Section'']
          @ radio_column y1 line_height buildings (building data) (building_other data)
          @ radio_column y1 line_height floors (floor_field data) (floor_other data)
          @ map (\<lambda>(i, name). Radio (y1 - of_nat i * line_height) name (name = section_field data))
              (enumerate 0 sections),
          y1 - of_nat (length buildings) * line_height - 0.15 * inch))"

definition declaration_text :: string where
  "declaration_text =
     ''I confirm that this device(s) is a property of Ajman University and to be '' @
     ''returned back to AU Store after usage. This device(s) can't be shifted to '' @
     ''any other user/location without a written approval from the Store.''"

definition ack_draw_declaration :: "rat string_width \<Rightarrow> rat \<Rightarrow> draw_op list \<times> rat" where
  "ack_draw_declaration c y =
     (let max_width = ack_width - 2 * ack_margin;
          lines = word_wrap c declaration_text max_width ''Helvetica-BoldOblique'' 9;
          (ops, y') = draw_lines y (0.16 * inch) lines
      in (ops, y' - 0.12 * inch))"

definition office_text :: string where
  "office_text =
     ''I understand that I will be responsible for any misuse or damages that may occur. '' @
     ''I confirm that this device(s) will be used for work purpose only.''"

definition lab_text :: string where
  "lab_text =
     ''I understand that the lab supervisor shall monitor the lab devices to avoid any misuse or damage.''"

definition ack_draw_device_selection :: "rat string_width \<Rightarrow> rat \<Rightarrow> ack_data \<Rightarrow> draw_op list \<times> rat" where
  "ack_draw_device_selection c y data =
     (let y1 = y - 0.28 * inch;
          y2 = y1 - 0.18 * inch;
          max_width = ack_width - 2 * ack_margin - 0.4 * inch;
          lines = word_wrap c office_text max_width ''Helvetica'' 8;
          (ops, y3) = draw_lines y2 (0.13 * inch) lines;
          y4 = y3 - 0.12 * inch;
          y5 = y4 - 0.18 * inch
      in ([Heading y ''Please select one of the following:'',
           Radio y1 ''Office Device'' (device_type data = ''Office'')]
          @ ops
          @ [Radio y4 ''Lab Device'' (device_type data = ''Lab''), TextLine y5 lab_text],
          y5 - 0.3 * inch))"

text \<open>
  \<^verbatim>\<open>_draw_signature\<close> returns nothing; it stores the rectangle in
  \<^verbatim>\<open>self.sig_field_rect\<close>, here the second component.
\<close>

definition ack_draw_signature :: "rat \<Rightarrow> draw_op list \<times> (rat \<times> rat \<times> rat \<times> rat)" where
  "ack_draw_signature y =
     (let (ops, y) = (if y < 1.3 * inch then ([ShowPage], ack_height - ack_margin) else ([], y));
          y' = y - 0.12 * inch;
          box_width = 2.2 * inch;
          box_height = 1 * inch;
          x1 = ack_margin;
          y1 = y' - box_height;
          x2 = ack_margin + box_width;
          y2 = y'
      in (ops @ [Heading y ''Employee Signature:'', SignatureBox x1 y1 x2 y2,
                 TextLine (y1 - 0.12 * inch) ''Click here to sign in Adobe Acrobat''],
          (x1, y1, x2, y2)))"

text \<open>The part of \<^verbatim>\<open>_draw_form\<close> up to and including the items table.\<close>

definition ack_draw_upto_table :: "ack_data \<Rightarrow> draw_op list \<times> rat" where
  "ack_draw_upto_table data =
     (let y = ack_height - ack_margin;
          (ops1, y) = ack_draw_header y;
          (ops2, y) = ack_draw_date y;
          (ops3, y) = ack_draw_items_table y (items data)
      in (ops1 @ ops2 @ ops3, y))"

text \<open>The rest of \<^verbatim>\<open>_draw_form\<close>, from the cursor the table returns.\<close>

definition ack_draw_after_table :: "rat string_width \<Rightarrow> rat \<Rightarrow> ack_data \<Rightarrow> draw_op list \<times> (rat \<times> rat \<times> rat \<times> rat)" where
  "ack_draw_after_table c y data =
     (let remaining_content_height = 4.5 * inch;
          (ops4, y) = ack_check_page_break y remaining_content_height;
          (ops5, y) = ack_draw_custodian_details y data;
          (ops6, y) = ack_draw_location_section y data;
          (ops7, y) = ack_draw_declaration c y;
          (ops8, y) = ack_draw_device_selection c y data;
          (ops9, rect) = ack_draw_signature y
      in (ops4 @ ops5 @ ops6 @ ops7 @ ops8 @ ops9, rect))"

definition ack_draw_form :: "rat string_width \<Rightarrow> ack_data \<Rightarrow> draw_op list \<times> (rat \<times> rat \<times> rat \<times> rat)" where
  "ack_draw_form c data =
     (let (ops, y) = ack_draw_upto_table data;
          (ops', rect) = ack_draw_after_table c y data
      in (ops @ ops', rect))"

subsection \<open>Transfer form: layout\<close>

definition transfer_width :: rat where
  "transfer_width = A4_width"

definition transfer_height :: rat where
  "transfer_height = A4_height"

definition transfer_margin :: rat where
  "transfer_margin = 0.75 * inch"

definition transfer_draw_header :: "rat \<Rightarrow> draw_op list \<times> rat" where
  "transfer_draw_header y =
     (let y1 = y - 1.1 * inch;
          y2 = y1 - 0.5 * inch;
          y3 = y2 - 0.3 * inch
      in ([Heading y1 ''Main Store'', Heading y2 ''ATF'', Heading y3 ''(Asset Transfer Form)''],
          y3 - 0.5 * inch))"

definition transfer_draw_date :: "rat \<Rightarrow> draw_op list \<times> rat" where
  "transfer_draw_date y = ([DateStamp y], y)"

text \<open>
  \<^verbatim>\<open>_draw_transferred_from\<close> and \<^verbatim>\<open>_draw_transferred_to\<close> differ in the caption and in
  the three values only.
\<close>

definition transfer_draw_party :: "rat string_width \<Rightarrow> rat \<Rightarrow> string \<Rightarrow> string \<Rightarrow> string \<Rightarrow> string \<Rightarrow> draw_op list \<times> rat" where
  "transfer_draw_party c y caption name dept emp =
     (let y1 = y - 0.32 * inch;
          name_width = 3.5 * inch;
          name_text = truncate_text c name (name_width - 0.1 * inch) ''Helvetica'' 10;
          y2 = y1 - 0.35 * inch;
          dept_width = 2.3 * inch;
          dept_text = truncate_text c dept (dept_width - 0.1 * inch) ''Helvetica'' 10;
          emp_width = 1 * inch;
          emp_text = truncate_text c emp (emp_width - 0.1 * inch) ''Helvetica'' 10
      in ([Heading y caption,
           Field y1 ''Custodian Name:'' name_text,
           Field y2 ''Department:'' dept_text,
           Field y2 ''Emp. ID:'' emp_text],
          y2 - 0.4 * inch))"

definition transfer_draw_transferred_from :: "rat string_width \<Rightarrow> rat \<Rightarrow> transfer_data \<Rightarrow> draw_op list \<times> rat" where
  "transfer_draw_transferred_from c y data =
     transfer_draw_party c y ''Transferred from:''
       (from_name data) (from_department data) (from_emp_id data)"

definition transfer_draw_transferred_to :: "rat string_width \<Rightarrow> rat \<Rightarrow> transfer_data \<Rightarrow> draw_op list \<times> rat" where
  "transfer_draw_transferred_to c y data =
     transfer_draw_party c y ''Transferred to:''
       (to_name data) (to_department data) (to_emp_id data)"

definition transfer_col_widths :: "rat list" where
  "transfer_col_widths = [0.35 * inch, 1 * inch, 1.3 * inch, 2.3 * inch, 1.15 * inch]"

definition transfer_row_height :: rat where
  "transfer_row_height = 0.3 * inch"

definition transfer_header_height :: rat where
  "transfer_header_height = 0.35 * inch"

definition transfer_column_text :: "asset \<Rightarrow> nat \<Rightarrow> nat \<Rightarrow> string" where
  "transfer_column_text a row_num col =
     (if col = 0 then py_str (row_num + 1)
      else if col = 1 then asset_store_code a
      else if col = 2 then asset_name a
      else if col = 3 then asset_description a
      else old_asset_no a)"

definition transfer_row_cells :: "asset list \<Rightarrow> nat \<Rightarrow> string list" where
  "transfer_row_cells as row_num =
     (if row_num < length as
      then map (\<lambda>(col, width). cell_text col width (transfer_column_text (as ! row_num) row_num col))
             (enumerate 0 transfer_col_widths)
      else [])"

text \<open>One pass of \<^verbatim>\<open>for row_num in range(num_rows)\<close>: the row, with no check before it.\<close>

definition transfer_draw_row :: "asset list \<Rightarrow> draw_op list \<times> rat \<Rightarrow> nat \<Rightarrow> draw_op list \<times> rat" where
  "transfer_draw_row as state row_num =
     (let (ops, y) = state
      in (ops @ [DataRow y (transfer_row_cells as row_num)], y - transfer_row_height))"

definition transfer_draw_assets_table :: "rat \<Rightarrow> asset list \<Rightarrow> draw_op list \<times> rat" where
  "transfer_draw_assets_table y as =
     (let num_rows = (if as \<noteq> [] then length as else 1);
          (ops, y') = foldl (transfer_draw_row as) ([TableHeader y], y - transfer_header_height)
                        [0..<num_rows]
      in (ops, y' - 0.3 * inch))"

definition transfer_declaration_lines :: "string list" where
  "transfer_declaration_lines =
     [''This device is a property of AU and to be returned back to AU store after usage, this device can't'',
      ''be shifted to any other user without a written approval from the stores.'',
      ''I confirm that this device will be used for work purpose only.'',
      ''I also understand that I will be responsible for any misuse or damages that may occur.'']"

definition transfer_draw_declaration :: "rat \<Rightarrow> draw_op list \<times> rat" where
  "transfer_draw_declaration y =
     (let (ops, y') = draw_lines (y - 0.25 * inch) (0.16 * inch) transfer_declaration_lines
      in (Heading y ''Declaration:'' # ops, y' - 0.2 * inch))"

definition transfer_draw_signature :: "rat \<Rightarrow> draw_op list \<times> (rat \<times> rat \<times> rat \<times> rat)" where
  "transfer_draw_signature y =
     (let (ops, y) = (if y < 1.5 * inch then ([ShowPage], transfer_height - transfer_margin)
                      else ([], y));
          y' = y - 0.12 * inch;
          box_width = 2.2 * inch;
          box_height = 0.9 * inch;
          x1 = transfer_margin;
          y1 = y' - box_height;
          x2 = transfer_margin + box_width;
          y2 = y'
      in (ops @ [Heading y ''Signature :'', SignatureBox x1 y1 x2 y2,
                 TextLine (y1 - 0.12 * inch) ''Click here to sign in Adobe Acrobat''],
          (x1, y1, x2, y2)))"

text \<open>\<^verbatim>\<open>_draw_form\<close> up to the signature, and whole.\<close>

definition transfer_draw_upto_signature :: "rat string_width \<Rightarrow> transfer_data \<Rightarrow> draw_op list \<times> rat" where
  "transfer_draw_upto_signature c data =
     (let y = transfer_height - transfer_margin;
          (ops1, y) = transfer_draw_header y;
          (ops2, y) = transfer_draw_date y;
          (ops3, y) = transfer_draw_transferred_from c y data;
          (ops4, y) = transfer_draw_assets_table y (assets data);
          (ops5, y) = transfer_draw_transferred_to c y data;
          (ops6, y) = transfer_draw_declaration y
      in (ops1 @ ops2 @ ops3 @ ops4 @ ops5 @ ops6, y))"

definition transfer_draw_form :: "rat string_width \<Rightarrow> transfer_data \<Rightarrow> draw_op list \<times> (rat \<times> rat \<times> rat \<times> rat)" where
  "transfer_draw_form c data =
     (let (ops, y) = transfer_draw_upto_signature c data;
          (ops', rect) = transfer_draw_signature y
      in (ops @ ops', rect))"

subsection \<open>generate\<close>

text \<open>
  The written document: the drawing operations, closed by the \<open>ShowPage\<close> of
  \<^verbatim>\<open>c.save()\<close>, and the signature annotation \<^verbatim>\<open>_add_signature_field\<close> appends, its
  rectangle converted with \<^verbatim>\<open>int\<close>. Creating the output directory and writing the file are
  taken to succeed.
\<close>

record pdf =
  content :: "draw_op list"
  sig_field :: "int \<times> int \<times> int \<times> int"

type_synonym files = "string \<rightharpoonup> pdf"

definition add_signature_field :: "draw_op list \<Rightarrow> rat \<times> rat \<times> rat \<times> rat \<Rightarrow> pdf" where
  "add_signature_field pdf_buffer rect =
     (let (x1, y1, x2, y2) = rect
      in \<lparr>content = pdf_buffer, sig_field = (py_int x1, py_int y1, py_int x2, py_int y2)\<rparr>)"

definition ack_generate :: "rat string_width \<Rightarrow> files \<Rightarrow> string \<Rightarrow> ack_data \<Rightarrow> string option \<Rightarrow> (string \<times> files) option" where
  "ack_generate c fs output_dir form_data filename =
     (let filename = (case filename of None \<Rightarrow> ack_generate_filename form_data | Some f \<Rightarrow> f)
      in case get_unique_filepath fs output_dir filename of
           None \<Rightarrow> None
         | Some filepath \<Rightarrow>
             (let (ops, rect) = ack_draw_form c form_data
              in Some (filepath, fs(filepath \<mapsto> add_signature_field (ops @ [ShowPage]) rect))))"

definition transfer_generate :: "rat string_width \<Rightarrow> files \<Rightarrow> string \<Rightarrow> transfer_data \<Rightarrow> string option \<Rightarrow> (string \<times> files) option" where
  "transfer_generate c fs output_dir form_data filename =
     (let filename = (case filename of None \<Rightarrow> transfer_generate_filename form_data | Some f \<Rightarrow> f)
      in case get_unique_filepath fs output_dir filename of
           None \<Rightarrow> None
         | Some filepath \<Rightarrow>
             (let (ops, rect) = transfer_draw_form c form_data
              in Some (filepath, fs(filepath \<mapsto> add_signature_field (ops @ [ShowPage]) rect))))"

subsection \<open>The forms' Generate buttons\<close>

text \<open>
  \<^verbatim>\<open>_get_items\<close> and \<^verbatim>\<open>_get_assets\<close> (src/gui) strip every entry and keep the rows with a
  non-empty entry; \<^verbatim>\<open>_generate_pdf\<close> warns and returns when none is left, and calls
  \<^verbatim>\<open>generate\<close> otherwise. The typed rows are given as records of the raw entries.
\<close>

definition get_items :: "item list \<Rightarrow> item list" where
  "get_items item_widgets =
     filter (\<lambda>r. store_code r \<noteq> [] \<or> description r \<noteq> [] \<or> qty r \<noteq> [] \<or> purchase_date r \<noteq> [])
       (map (\<lambda>w. \<lparr>store_code = py_strip (store_code w), description = py_strip (description w),
                   qty = py_strip (qty w), purchase_date = py_strip (purchase_date w)\<rparr>)
          item_widgets)"

definition get_assets :: "asset list \<Rightarrow> asset list" where
  "get_assets asset_widgets =
     filter (\<lambda>r. asset_store_code r \<noteq> [] \<or> asset_name r \<noteq> [] \<or> asset_description r \<noteq> []
                 \<or> old_asset_no r \<noteq> [])
       (map (\<lambda>w. \<lparr>asset_store_code = py_strip (asset_store_code w),
                   asset_name = py_strip (asset_name w),
                   asset_description = py_strip (asset_description w),
                   old_asset_no = py_strip (old_asset_no w)\<rparr>)
          asset_widgets)"

datatype gui_outcome = Warning string | Success string

text \<open>
  The entries of the form other than the rows arrive as a record of the raw values; the
  radio-button variables are passed on as they are.
\<close>

definition ack_generate_pdf :: "rat string_width \<Rightarrow> files \<Rightarrow> string \<Rightarrow> ack_data \<Rightarrow> (gui_outcome \<times> files) option" where
  "ack_generate_pdf c fs output_dir entries =
     (let its = get_items (items entries)
      in if its = [] then Some (Warning ''Please add at least one item.'', fs)
         else
           (let form_data =
                  \<lparr>items = its,
                   custodian_name = py_strip (custodian_name entries),
                   emp_id = py_strip (emp_id entries),
                   department = py_strip (department entries),
                   building = building entries,
                   building_other = py_strip (building_other entries),
                   floor_field = floor_field entries,
                   floor_other = py_strip (floor_other entries),
                   section_field = section_field entries,
                   device_type = device_type entries\<rparr>
            in case ack_generate c fs output_dir form_data None of
                 None \<Rightarrow> None
               | Some (filepath, fs') \<Rightarrow> Some (Success filepath, fs')))"

definition transfer_generate_pdf :: "rat string_width \<Rightarrow> files \<Rightarrow> string \<Rightarrow> transfer_data \<Rightarrow> (gui_outcome \<times> files) option" where
  "transfer_generate_pdf c fs output_dir entries =
     (let as = get_assets (assets entries)
      in if as = [] then Some (Warning ''Please add at least one asset.'', fs)
         else
           (let form_data =
                  \<lparr>assets = as,
                   from_name = py_strip (from_name entries),
                   from_department = py_strip (from_department entries),
                   from_emp_id = py_strip (from_emp_id entries),
                   to_name = py_strip (to_name entries),
                   to_department = py_strip (to_department entries),
                   to_emp_id = py_strip (to_emp_id entries)\<rparr>
            in case transfer_generate c fs output_dir form_data None of
                 None \<Rightarrow> None
               | Some (filepath, fs') \<Rightarrow> Some (Success filepath, fs')))"

subsection \<open>Reading a render\<close>

text \<open>The data rows of a render, in drawing order: the cursor of each row and its texts.\<close>

fun row_at :: "draw_op \<Rightarrow> (rat \<times> string list) list" where
  "row_at (DataRow y cells) = [(y, cells)]"
| "row_at _ = []"

definition table_rows :: "draw_op list \<Rightarrow> (rat \<times> string list) list" where
  "table_rows ops = concat (map row_at ops)"

subsection \<open>Sample submissions\<close>

text \<open>Concrete form data on which the model is evaluated.\<close>

definition sample_item :: "nat \<Rightarrow> item" where
  "sample_item n =
     \<lparr>store_code = ''SC-'' @ py_str n,
      description = ''Laptop 15/16 <Pro>: a very long description'',
      qty = ''1'', purchase_date = ''01/02/2024''\<rparr>"

definition sample_ack :: "nat \<Rightarrow> ack_data" where
  "sample_ack n =
     \<lparr>items = map sample_item [0..<n], custodian_name = ''A. User'', emp_id = [],
      department = ''Main Store'', building = ''SZH'', building_other = [],
      floor_field = ''Ground'', floor_other = [], section_field = ''Male'',
      device_type = ''Lab''\<rparr>"

definition sample_asset :: "nat \<Rightarrow> asset" where
  "sample_asset n =
     \<lparr>asset_store_code = ''SC-'' @ py_str n, asset_name = ''Projector'',
      asset_description = ''Ceiling projector'', old_asset_no = []\<rparr>"

definition sample_transfer :: "nat \<Rightarrow> transfer_data" where
  "sample_transfer n =
     \<lparr>assets = map sample_asset [0..<n], from_name = [], from_department = ''Main Store'',
      from_emp_id = [], to_name = ''B|C'', to_department = ''Main Store Department'',
      to_emp_id = ''77''\<rparr>"

definition blank_pdf :: pdf where
  "blank_pdf = \<lparr>content = [], sig_field = (0, 0, 0, 0)\<rparr>"

section \<open>Theorems\<close>

subsection \<open>Cell truncation\<close>

lemma floor_numeral_div: "\<lfloor>numeral a / numeral b :: rat\<rfloor> = numeral a div numeral b"
  using floor_divide_of_int_eq [of "numeral a" "numeral b", where ?'a = rat] by simp




subsection \<open>Truncation with an ellipsis\<close>

text \<open>
  The loop stops at the longest prefix of the text (the text itself included) that is empty
  or fits together with the ellipsis.
\<close>

lemma drop_until_fits_char:
  "\<exists>n\<le>length text. drop_until_fits c text W font_name font_size = take n text
      \<and> (n = 0 \<or> c (take n text @ ''...'') font_name font_size \<le> W)
      \<and> (\<forall>k. n < k \<and> k \<le> length text \<longrightarrow> c (take k text @ ''...'') font_name font_size > W)"
proof (induction c "text" W font_name font_size rule: drop_until_fits.induct)
  case (1 c t W f s)
  show ?case
  proof (cases "length t > 0 \<and> c (t @ ''...'') f s > W")
    case True
    then obtain n where n: "n \<le> length (butlast t)"
        "drop_until_fits c (butlast t) W f s = take n (butlast t)"
        "n = 0 \<or> c (take n (butlast t) @ ''...'') f s \<le> W"
        "\<forall>k. n < k \<and> k \<le> length (butlast t) \<longrightarrow> c (take k (butlast t) @ ''...'') f s > W"
      using "1.IH" by blast
    have tk: "\<And>k. k \<le> length (butlast t) \<Longrightarrow> take k (butlast t) = take k t"
      by (simp add: take_butlast butlast_conv_take)
    have eq: "drop_until_fits c t W f s = take n t"
      using True n(1,2) tk by (subst drop_until_fits.simps) simp
    have big: "\<forall>k. n < k \<and> k \<le> length t \<longrightarrow> c (take k t @ ''...'') f s > W"
    proof (intro allI impI)
      fix k assume k: "n < k \<and> k \<le> length t"
      show "c (take k t @ ''...'') f s > W"
      proof (cases "k = length t")
        case True
        with \<open>length t > 0 \<and> c (t @ ''...'') f s > W\<close> show ?thesis by simp
      next
        case False
        with k have "k \<le> length (butlast t)" by (simp; arith)
        with n(4) k tk show ?thesis by auto
      qed
    qed
    from n(1) have "n \<le> length t" by simp
    moreover have "n = 0 \<or> c (take n t @ ''...'') f s \<le> W"
      using n(1,3) tk by auto
    ultimately show ?thesis using eq big by blast
  next
    case False
    then have eq: "drop_until_fits c t W f s = t"
      by (subst drop_until_fits.simps) auto
    show ?thesis
      by (rule exI [of _ "length t"]) (use False eq in auto)
  qed
qed


text \<open>
  Claim C7. A text whose measured width is at most \<open>max_width\<close> is returned unchanged, so
  truncating it again returns it again. For a wider text the last character is dropped
  until the prefix followed by \<^verbatim>\<open>...\<close> fits: the result is that prefix with the ellipsis,
  of width at most \<open>max_width\<close>, no longer prefix fitting; or it is the empty string, when
  no non-empty prefix fits with the ellipsis.
\<close>

theorem truncate_text_fits:
  "(c text font_name font_size \<le> max_width \<longrightarrow>
      truncate_text c text max_width font_name font_size = text
      \<and> truncate_text c (truncate_text c text max_width font_name font_size) max_width
            font_name font_size = text)
   \<and> (\<not> c text font_name font_size \<le> max_width \<longrightarrow>
      (truncate_text c text max_width font_name font_size = [] \<and>
       (\<forall>k. 0 < k \<and> k \<le> length text \<longrightarrow>
            c (take k text @ ''...'') font_name font_size > max_width))
      \<or> (\<exists>n. 0 < n \<and> n \<le> length text
            \<and> truncate_text c text max_width font_name font_size = take n text @ ''...''
            \<and> c (truncate_text c text max_width font_name font_size) font_name font_size
                  \<le> max_width
            \<and> (\<forall>k. n < k \<and> k \<le> length text \<longrightarrow>
                  c (take k text @ ''...'') font_name font_size > max_width)))"
proof (intro conjI impI)
  assume fits: "c text font_name font_size \<le> max_width"
  then show a: "truncate_text c text max_width font_name font_size = text"
    by (simp add: truncate_text_def)
  then show "truncate_text c (truncate_text c text max_width font_name font_size) max_width
            font_name font_size = text"
    by simp
next
  assume over: "\<not> c text font_name font_size \<le> max_width"
  obtain n where n: "n \<le> length text"
      "drop_until_fits c text max_width font_name font_size = take n text"
      "n = 0 \<or> c (take n text @ ''...'') font_name font_size \<le> max_width"
      "\<forall>k. n < k \<and> k \<le> length text \<longrightarrow>
           c (take k text @ ''...'') font_name font_size > max_width"
    using drop_until_fits_char [of "text" c max_width font_name font_size] by blast
  show "(truncate_text c text max_width font_name font_size = [] \<and>
       (\<forall>k. 0 < k \<and> k \<le> length text \<longrightarrow>
            c (take k text @ ''...'') font_name font_size > max_width))
      \<or> (\<exists>n. 0 < n \<and> n \<le> length text
            \<and> truncate_text c text max_width font_name font_size = take n text @ ''...''
            \<and> c (truncate_text c text max_width font_name font_size) font_name font_size
                  \<le> max_width
            \<and> (\<forall>k. n < k \<and> k \<le> length text \<longrightarrow>
                  c (take k text @ ''...'') font_name font_size > max_width))"
  proof (cases "n = 0")
    case True
    with n(2) over have "truncate_text c text max_width font_name font_size = []"
      by (simp add: truncate_text_def)
    with True n(4) show ?thesis by blast
  next
    case False
    with n(1) have ne: "take n text \<noteq> []" "text \<noteq> []" by auto
    with over n(2) have eq: "truncate_text c text max_width font_name font_size = take n text @ ''...''"
      by (simp add: truncate_text_def)
    from False n(3) have "c (take n text @ ''...'') font_name font_size \<le> max_width" by simp
    with eq False n(1,4) show ?thesis by auto
  qed
qed

theorem truncate_text_fits_witness:
  "truncate_text half_em_width ''Stores'' 36 ''Helvetica'' 10 = ''Stores''
   \<and> truncate_text half_em_width ''Main Store Department'' 36 ''Helvetica'' 10 = ''Main...''
   \<and> truncate_text half_em_width ''Main Store Department'' 10 ''Helvetica'' 10 = ''''"
  using truncate_text_fits [of half_em_width "''Stores''" "''Helvetica''" 10 36]
    truncate_text_fits [of half_em_width "''Main Store Department''" "''Helvetica''" 10 36]
  by (simp add: truncate_text_def half_em_width_def drop_until_fits.simps)

subsection \<open>Word wrap\<close>

text \<open>Joining and splitting: \<^verbatim>\<open>" ".join\<close> of joined chunks, and \<^verbatim>\<open>split\<close> after \<^verbatim>\<open>join\<close>.\<close>

lemma py_join_Cons: "ws \<noteq> [] \<Longrightarrow> py_join sep (w # ws) = w @ sep @ py_join sep ws"
  by (cases ws) simp_all

lemma py_join_append:
  "xs \<noteq> [] \<Longrightarrow> ys \<noteq> [] \<Longrightarrow> py_join sep (xs @ ys) = py_join sep xs @ sep @ py_join sep ys"
proof (induction xs)
  case Nil
  then show ?case by simp
next
  case (Cons x xs)
  show ?case
  proof (cases "xs = []")
    case True
    with Cons.prems show ?thesis by (simp add: py_join_Cons)
  next
    case False
    with Cons show ?thesis by (simp add: py_join_Cons)
  qed
qed

lemma py_join_concat:
  "\<forall>ch\<in>set chunks. ch \<noteq> [] \<Longrightarrow>
     py_join sep (map (py_join sep) chunks) = py_join sep (concat chunks)"
proof (induction chunks)
  case Nil
  then show ?case by simp
next
  case (Cons ch chunks)
  show ?case
  proof (cases "chunks = []")
    case True
    then show ?thesis by simp
  next
    case False
    with Cons.prems have "concat chunks \<noteq> []" by (cases chunks) auto
    with False Cons show ?thesis
      by (simp add: py_join_Cons py_join_append)
  qed
qed

lemma split_acc_word:
  "\<forall>ch\<in>set w. \<not> is_space ch \<Longrightarrow> split_acc cur (w @ rest) = split_acc (cur @ w) rest"
  by (induction w arbitrary: cur) simp_all

lemma split_acc_space:
  "cur \<noteq> [] \<Longrightarrow> split_acc cur (CHR '' '' # rest) = cur # split_acc [] rest"
  by (simp add: is_space_def whitespace_def)

lemma py_split_join:
  "\<forall>w\<in>set ws. w \<noteq> [] \<and> (\<forall>ch\<in>set w. \<not> is_space ch) \<Longrightarrow> py_split (py_join '' '' ws) = ws"
proof (induction ws)
  case Nil
  then show ?case by (simp add: py_split_def)
next
  case (Cons w ws)
  then have w: "w \<noteq> []" "\<forall>ch\<in>set w. \<not> is_space ch" by auto
  show ?case
  proof (cases "ws = []")
    case True
    have "split_acc [] (w @ []) = split_acc ([] @ w) []" using w(2) by (rule split_acc_word)
    with True w(1) show ?thesis by (simp add: py_split_def)
  next
    case False
    have "split_acc [] (w @ '' '' @ py_join '' '' ws) = split_acc ([] @ w) ('' '' @ py_join '' '' ws)"
      using w(2) by (rule split_acc_word)
    also have "\<dots> = w # split_acc [] (py_join '' '' ws)"
      using w(1) split_acc_space [of w] by simp
    finally show ?thesis using Cons False by (simp add: py_split_def py_join_Cons)
  qed
qed

lemma split_acc_words:
  "\<forall>ch\<in>set cur. \<not> is_space ch \<Longrightarrow>
     \<forall>w\<in>set (split_acc cur t). w \<noteq> [] \<and> (\<forall>ch\<in>set w. \<not> is_space ch)"
proof (induction t arbitrary: cur)
  case Nil
  then show ?case by simp
next
  case (Cons a t)
  have e: "\<forall>w\<in>set (split_acc [] t). w \<noteq> [] \<and> (\<forall>ch\<in>set w. \<not> is_space ch)"
    by (rule Cons.IH) simp
  show ?case
  proof (cases "is_space a")
    case True
    with e Cons.prems show ?thesis by auto
  next
    case False
    with Cons.prems have "\<forall>ch\<in>set (cur @ [a]). \<not> is_space ch" by auto
    from Cons.IH [OF this] False show ?thesis by simp
  qed
qed

lemma py_split_words:
  "\<forall>w\<in>set (py_split t). w \<noteq> [] \<and> (\<forall>ch\<in>set w. \<not> is_space ch)"
  using split_acc_words [of "[]" t] by (simp add: py_split_def)

lemma wrap_loop_chunks:
  assumes "\<forall>w\<in>set ws. sw w \<le> W"
    and "\<forall>ch\<in>set chunks0. ch \<noteq> [] \<and> sw (py_join '' '' ch) \<le> W"
    and "cur \<noteq> [] \<longrightarrow> sw (py_join '' '' cur) \<le> W"
  shows "\<exists>chunks. wrap_loop sw W (map (py_join '' '') chunks0) cur ws = map (py_join '' '') chunks
           \<and> concat chunks = concat chunks0 @ cur @ ws
           \<and> (\<forall>ch\<in>set chunks. ch \<noteq> [] \<and> sw (py_join '' '' ch) \<le> W)"
  using assms
proof (induction ws arbitrary: chunks0 cur)
  case Nil
  show ?case
  proof (cases "cur = []")
    case True
    with Nil show ?thesis by (intro exI [of _ chunks0]) simp
  next
    case False
    with Nil show ?thesis by (intro exI [of _ "chunks0 @ [cur]"]) simp
  qed
next
  case (Cons w ws)
  then have fit: "sw w \<le> W" and rest: "\<forall>w\<in>set ws. sw w \<le> W" by auto
  show ?case
  proof (cases "sw (py_join '' '' (cur @ [w])) > W")
    case True
    with fit have ne: "cur \<noteq> []" by auto
    with Cons.prems have c: "\<forall>ch\<in>set (chunks0 @ [cur]). ch \<noteq> [] \<and> sw (py_join '' '' ch) \<le> W"
      by auto
    from fit have "[w] \<noteq> [] \<longrightarrow> sw (py_join '' '' [w]) \<le> W" by simp
    from Cons.IH [OF rest c this]
    obtain chunks where "wrap_loop sw W (map (py_join '' '') (chunks0 @ [cur])) [w] ws = map (py_join '' '') chunks"
       "concat chunks = concat (chunks0 @ [cur]) @ [w] @ ws"
       "\<forall>ch\<in>set chunks. ch \<noteq> [] \<and> sw (py_join '' '' ch) \<le> W" by blast
    with True show ?thesis by (intro exI [of _ chunks]) simp
  next
    case False
    then have "cur @ [w] \<noteq> [] \<longrightarrow> sw (py_join '' '' (cur @ [w])) \<le> W" by simp
    from Cons.IH [OF rest Cons.prems(2) this]
    obtain chunks where "wrap_loop sw W (map (py_join '' '') chunks0) (cur @ [w]) ws = map (py_join '' '') chunks"
       "concat chunks = concat chunks0 @ (cur @ [w]) @ ws"
       "\<forall>ch\<in>set chunks. ch \<noteq> [] \<and> sw (py_join '' '' ch) \<le> W" by blast
    with False show ?thesis by (intro exI [of _ chunks]) simp
  qed
qed

text \<open>
  Claim C1 (as amended). If every word of the text, measured alone, is at most
  \<open>max_width\<close> wide, then the lines the word wrap produces, joined by single spaces, are
  the words of the text joined by single spaces (the text itself when it is single-spaced,
  as both paragraphs of the form are); the words of the lines, in order, are the words of
  the text, none dropped or duplicated; and no line is wider than \<open>max_width\<close>.
\<close>

theorem word_wrap_words_fit:
  assumes "\<forall>w\<in>set (py_split text). c w font_name font_size \<le> max_width"
  shows "py_join '' '' (word_wrap c text max_width font_name font_size)
           = py_join '' '' (py_split text)
       \<and> concat (map py_split (word_wrap c text max_width font_name font_size)) = py_split text
       \<and> (\<forall>line\<in>set (word_wrap c text max_width font_name font_size).
             c line font_name font_size \<le> max_width)
       \<and> (\<forall>ws. text = py_join '' '' ws \<and> (\<forall>w\<in>set ws. w \<noteq> [] \<and> (\<forall>ch\<in>set w. \<not> is_space ch))
             \<longrightarrow> py_join '' '' (word_wrap c text max_width font_name font_size) = text)"
proof -
  let ?sw = "\<lambda>s. c s font_name font_size"
  let ?J = "py_join '' ''"
  have "\<exists>chunks. wrap_loop ?sw max_width (map ?J []) [] (py_split text) = map ?J chunks
           \<and> concat chunks = concat [] @ [] @ py_split text
           \<and> (\<forall>ch\<in>set chunks. ch \<noteq> [] \<and> ?sw (?J ch) \<le> max_width)"
    using assms by (intro wrap_loop_chunks) simp_all
  then obtain chunks where ch: "word_wrap c text max_width font_name font_size = map ?J chunks"
      "concat chunks = py_split text"
      "\<forall>ch\<in>set chunks. ch \<noteq> [] \<and> ?sw (?J ch) \<le> max_width"
    by (auto simp: word_wrap_def)
  have j: "?J (word_wrap c text max_width font_name font_size) = ?J (py_split text)"
    using ch py_join_concat [of chunks "'' ''"] by simp
  have "\<forall>ch\<in>set chunks. \<forall>w\<in>set ch. w \<in> set (py_split text)"
    using ch(2) by (metis UN_I set_concat)
  then have "\<forall>ch\<in>set chunks. py_split (?J ch) = ch"
    using py_split_words [of "text"] by (intro ballI py_split_join) blast
  then have "map py_split (map ?J chunks) = chunks"
    by (induction chunks) simp_all
  then have w: "concat (map py_split (word_wrap c text max_width font_name font_size)) = py_split text"
    using ch(1,2) by simp
  have l: "\<forall>line\<in>set (word_wrap c text max_width font_name font_size).
             c line font_name font_size \<le> max_width"
    using ch(1,3) by auto
  have s: "\<forall>ws. text = ?J ws \<and> (\<forall>w\<in>set ws. w \<noteq> [] \<and> (\<forall>ch\<in>set w. \<not> is_space ch))
             \<longrightarrow> ?J (word_wrap c text max_width font_name font_size) = text"
    using j py_split_join by auto
  from j w l s show ?thesis by blast
qed

theorem word_wrap_words_fit_witness:
  "word_wrap half_em_width ''this device can't be shifted'' 45 ''Helvetica'' 9
     = [''this'', ''device'', ''can't be'', ''shifted'']
   \<and> py_join '' '' (word_wrap half_em_width ''this device can't be shifted'' 45 ''Helvetica'' 9)
     = ''this device can't be shifted''"
  using word_wrap_words_fit [of "''this device can't be shifted''" half_em_width "''Helvetica''" 9 45]
  by (simp add: word_wrap_def py_split_def is_space_def whitespace_def half_em_width_def)

text \<open>
  The claim as stated, for every text and width, fails at a word wider than \<open>max_width\<close>:
  the loop closes an empty line before it and then draws the word on a line of its own.
\<close>

theorem word_wrap_overlong_word:
  "word_wrap half_em_width ''Acknowledgement form'' 36 ''Helvetica'' 9
     = ['''', ''Acknowledgement'', ''form'']
   \<and> py_join '' '' (word_wrap half_em_width ''Acknowledgement form'' 36 ''Helvetica'' 9)
     \<noteq> ''Acknowledgement form''
   \<and> half_em_width ''Acknowledgement'' ''Helvetica'' 9 > 36"
  by (simp add: word_wrap_def py_split_def is_space_def whitespace_def half_em_width_def)

subsection \<open>File names\<close>

lemma clean_map:
  "clean s = map (\<lambda>ch. if ch \<in> set invalid_chars then CHR ''_'' else ch) s"
  by (simp add: clean_def invalid_chars_def replace_char_def)

lemma strip_or_unknown_trimmed:
  "py_strip x = x \<Longrightarrow> strip_or_unknown x = (if x = [] then ''Unknown'' else x)"
  by (simp add: strip_or_unknown_def)









subsection \<open>Unique output path\<close>

text \<open>Decimal numerals of different numbers differ, so the candidates never repeat.\<close>

lemma digit_char_inj: "a < 10 \<Longrightarrow> b < 10 \<Longrightarrow> digit_char a = digit_char b \<Longrightarrow> a = b"
  by (simp add: digit_char_def char_of_eq_iff take_bit_nat_eq_self)

lemma py_str_nonempty: "py_str n \<noteq> []"
  by (subst py_str.simps) simp

lemma py_str_inj: "py_str m = py_str n \<Longrightarrow> m = n"
proof (induction m arbitrary: n rule: py_str.induct)
  case (1 m)
  show ?case
  proof (cases "m < 10")
    case True
    then have m: "py_str m = [digit_char m]" by (subst py_str.simps) simp
    show ?thesis
    proof (cases "n < 10")
      case True
      then have "py_str n = [digit_char n]" by (subst py_str.simps) simp
      with m "1.prems" \<open>m < 10\<close> True show ?thesis by (auto dest: digit_char_inj)
    next
      case False
      then have "py_str n = py_str (n div 10) @ [digit_char (n mod 10)]"
        by (subst py_str.simps) simp
      with m "1.prems" py_str_nonempty [of "n div 10"] show ?thesis by auto
    qed
  next
    case False
    then have m: "py_str m = py_str (m div 10) @ [digit_char (m mod 10)]"
      by (subst py_str.simps) simp
    show ?thesis
    proof (cases "n < 10")
      case True
      then have "py_str n = [digit_char n]" by (subst py_str.simps) simp
      with m "1.prems" py_str_nonempty [of "m div 10"] show ?thesis by auto
    next
      case n: False
      then have "py_str n = py_str (n div 10) @ [digit_char (n mod 10)]"
        by (subst py_str.simps) simp
      with m "1.prems" have a: "py_str (m div 10) = py_str (n div 10)"
        and b: "digit_char (m mod 10) = digit_char (n mod 10)" by auto
      from "1.IH" [OF False a] have "m div 10 = n div 10" .
      moreover from b have "m mod 10 = n mod 10" by (auto dest!: digit_char_inj [rotated 2])
      ultimately show ?thesis by (metis div_mult_mod_eq)
    qed
  qed
qed

lemma path_join_plain:
  "b \<noteq> [] \<Longrightarrow> hd b \<noteq> CHR ''/'' \<Longrightarrow>
     path_join a b = (if a = [] \<or> last a = CHR ''/'' then a else a @ ''/'') @ b"
  by (simp add: path_join_def)

lemma candidate_form:
  "\<exists>p. \<forall>k. candidate dir base k = p @ '' (#'' @ py_str k @ '').pdf''"
proof (cases "base \<noteq> [] \<and> hd base = CHR ''/''")
  case True
  then show ?thesis
    by (intro exI [of _ base]) (simp add: candidate_def path_join_def)
next
  case False
  then have "\<forall>k. candidate dir base k =
      ((if dir = [] \<or> last dir = CHR ''/'' then dir else dir @ ''/'') @ base)
        @ '' (#'' @ py_str k @ '').pdf''"
    by (cases base) (simp_all add: candidate_def path_join_def)
  then show ?thesis by blast
qed

lemma candidate_inj: "candidate dir base j = candidate dir base k \<Longrightarrow> j = k"
proof -
  assume eq: "candidate dir base j = candidate dir base k"
  obtain p where "\<forall>k. candidate dir base k = p @ '' (#'' @ py_str k @ '').pdf''"
    using candidate_form by blast
  with eq have "py_str j @ '').pdf'' = py_str k @ '').pdf''" by simp
  then have "py_str j = py_str k" by simp
  then show ?thesis by (rule py_str_inj)
qed

text \<open>
  The search returns the first unused candidate from the counter on; in a file system
  with finitely many files there is one.
\<close>

lemma find_unique_first_free:
  "fs (candidate dir base k) = None \<Longrightarrow> c \<le> k \<Longrightarrow>
   \<forall>j. c \<le> j \<and> j < k \<longrightarrow> fs (candidate dir base j) \<noteq> None \<Longrightarrow>
   find_unique fs dir base c = Some (candidate dir base k)"
proof (induction "k - c" arbitrary: c)
  case 0
  then have "c = k" by simp
  with 0 show ?case by (subst find_unique.simps) simp
next
  case (Suc d)
  then have "c < k" by simp
  with Suc.prems obtain y where used: "fs (candidate dir base c) = Some y" by auto
  have next_one: "find_unique fs dir base (c + 1) = Some (candidate dir base k)"
    using Suc.hyps(2) Suc.prems \<open>c < k\<close> by (intro Suc.hyps(1)) auto
  have "find_unique fs dir base c = find_unique fs dir base (c + 1)"
    by (subst find_unique.simps) (simp add: used)
  with next_one show ?case by simp
qed

lemma free_candidate_exists:
  assumes "finite (dom fs)"
  shows "\<exists>k\<ge>c. fs (candidate dir base k) = None"
proof (rule ccontr)
  assume "\<not> (\<exists>k\<ge>c. fs (candidate dir base k) = None)"
  then have "candidate dir base ` {c..} \<subseteq> dom fs" by (auto simp: dom_def)
  with assms have "finite (candidate dir base ` {c..})" by (rule rev_finite_subset)
  moreover have "inj_on (candidate dir base) {c..}" by (auto simp: inj_on_def dest: candidate_inj)
  ultimately have "finite {c..}" by (rule finite_imageD)
  then show False by (simp add: infinite_Ici)
qed

lemma find_unique_returns:
  assumes "finite (dom fs)"
  shows "\<exists>k\<ge>c. find_unique fs dir base c = Some (candidate dir base k)
            \<and> fs (candidate dir base k) = None
            \<and> (\<forall>j. c \<le> j \<and> j < k \<longrightarrow> fs (candidate dir base j) \<noteq> None)"
proof -
  define P where "P k = (c \<le> k \<and> fs (candidate dir base k) = None)" for k
  define k where "k = (LEAST k. P k)"
  from free_candidate_exists [OF assms] obtain k0 where "P k0" unfolding P_def by blast
  then have "P k" unfolding k_def by (rule LeastI)
  then have l: "c \<le> k" "fs (candidate dir base k) = None" unfolding P_def by blast+
  have m: "\<forall>j. c \<le> j \<and> j < k \<longrightarrow> fs (candidate dir base j) \<noteq> None"
  proof (intro allI impI)
    fix j assume j: "c \<le> j \<and> j < k"
    have "P j \<Longrightarrow> k \<le> j" unfolding k_def by (rule Least_le)
    with j have "\<not> P j" by auto
    with j show "fs (candidate dir base j) \<noteq> None" unfolding P_def by simp
  qed
  from l m have "find_unique fs dir base c = Some (candidate dir base k)"
    by (intro find_unique_first_free)
  with l m show ?thesis by blast
qed

lemma get_unique_filepath_collision:
  assumes "finite (dom fs)" and "fs (path_join output_dir filename) \<noteq> None"
  shows "\<exists>k\<ge>2. get_unique_filepath fs output_dir filename
              = Some (candidate output_dir (take (length filename - 4) filename) k)
          \<and> fs (candidate output_dir (take (length filename - 4) filename) k) = None
          \<and> (\<forall>j. 2 \<le> j \<and> j < k \<longrightarrow>
                fs (candidate output_dir (take (length filename - 4) filename) j) \<noteq> None)"
proof -
  have "get_unique_filepath fs output_dir filename
          = find_unique fs output_dir (take (length filename - 4) filename) 2"
    using assms(2) by (auto simp: get_unique_filepath_def)
  then show ?thesis
    using find_unique_returns [OF assms(1), of 2 output_dir "take (length filename - 4) filename"]
    by presburger
qed

lemma ack_generate_writes:
  "get_unique_filepath fs output_dir (case filename of None \<Rightarrow> ack_generate_filename a | Some f \<Rightarrow> f)
     = Some p \<Longrightarrow>
   ack_generate c fs output_dir a filename =
     Some (p, fs(p \<mapsto> add_signature_field (fst (ack_draw_form c a) @ [ShowPage])
                          (snd (ack_draw_form c a))))"
  by (simp add: ack_generate_def Let_def split_def)

lemma transfer_generate_writes:
  "get_unique_filepath fs output_dir
       (case filename of None \<Rightarrow> transfer_generate_filename t | Some f \<Rightarrow> f) = Some p \<Longrightarrow>
   transfer_generate c fs output_dir t filename =
     Some (p, fs(p \<mapsto> add_signature_field (fst (transfer_draw_form c t) @ [ShowPage])
                          (snd (transfer_draw_form c t))))"
  by (simp add: transfer_generate_def Let_def split_def)

lemma py_str_2: "py_str 2 = ''2''"
  by code_simp

text \<open>
  Claim C10. When the path first resolved exists, every candidate is the file name without
  its last four characters, whatever they are, followed by \<^verbatim>\<open> (#k).pdf\<close>, and the
  resolver returns the one with the least \<open>k \<ge> 2\<close> whose path does not exist; both
  \<^verbatim>\<open>generate\<close> functions write there when given that file name. So a name that does not
  end in \<^verbatim>\<open>.pdf\<close> loses its last four characters and gets the extension \<^verbatim>\<open>.pdf\<close>.
\<close>

theorem unique_filepath_cuts_four:
  assumes "finite (dom fs)" and "fs (path_join output_dir filename) \<noteq> None"
  shows "\<exists>k\<ge>2. \<exists>p.
           p = path_join output_dir
                 (take (length filename - 4) filename @ '' (#'' @ py_str k @ '').pdf'')
         \<and> get_unique_filepath fs output_dir filename = Some p
         \<and> fs p = None
         \<and> (\<forall>j. 2 \<le> j \<and> j < k \<longrightarrow>
               fs (path_join output_dir
                     (take (length filename - 4) filename @ '' (#'' @ py_str j @ '').pdf''))
                 \<noteq> None)
         \<and> (\<exists>doc. ack_generate c fs output_dir a (Some filename) = Some (p, fs(p \<mapsto> doc)))
         \<and> (\<exists>doc. transfer_generate c fs output_dir t (Some filename) = Some (p, fs(p \<mapsto> doc)))"
proof -
  from get_unique_filepath_collision [OF assms]
  obtain k where k: "2 \<le> k"
      "get_unique_filepath fs output_dir filename
              = Some (candidate output_dir (take (length filename - 4) filename) k)"
      "fs (candidate output_dir (take (length filename - 4) filename) k) = None"
      "\<forall>j. 2 \<le> j \<and> j < k \<longrightarrow>
                fs (candidate output_dir (take (length filename - 4) filename) j) \<noteq> None"
    by blast
  have a: "\<exists>doc. ack_generate c fs output_dir a (Some filename)
      = Some (candidate output_dir (take (length filename - 4) filename) k,
              fs(candidate output_dir (take (length filename - 4) filename) k \<mapsto> doc))"
    using k(2) ack_generate_writes [where filename = "Some filename"] by fastforce
  have t: "\<exists>doc. transfer_generate c fs output_dir t (Some filename)
      = Some (candidate output_dir (take (length filename - 4) filename) k,
              fs(candidate output_dir (take (length filename - 4) filename) k \<mapsto> doc))"
    using k(2) transfer_generate_writes [where filename = "Some filename"] by fastforce
  show ?thesis
    using k a t unfolding candidate_def by (intro exI [of _ k]) simp
qed

theorem unique_filepath_cuts_four_witness:
  "finite (dom [''out/report.docx'' \<mapsto> blank_pdf])
   \<and> [''out/report.docx'' \<mapsto> blank_pdf] (path_join ''out'' ''report.docx'') \<noteq> None
   \<and> get_unique_filepath [''out/report.docx'' \<mapsto> blank_pdf] ''out'' ''report.docx''
       = Some ''out/report. (#2).pdf''
   \<and> (\<exists>doc. ack_generate half_em_width [''out/report.docx'' \<mapsto> blank_pdf] ''out''
               (sample_ack 1) (Some ''report.docx'')
        = Some (''out/report. (#2).pdf'',
                [''out/report.docx'' \<mapsto> blank_pdf, ''out/report. (#2).pdf'' \<mapsto> doc]))"
proof -
  let ?fs = "[''out/report.docx'' \<mapsto> blank_pdf]"
  have h1: "finite (dom ?fs)" by simp
  have h2: "?fs (path_join ''out'' ''report.docx'') \<noteq> None" by (simp add: path_join_def)
  have e: "get_unique_filepath ?fs ''out'' ''report.docx'' = Some ''out/report. (#2).pdf''"
    by (simp add: get_unique_filepath_def path_join_def find_unique.simps candidate_def py_str_2)
  from unique_filepath_cuts_four [OF h1 h2, where c = half_em_width and a = "sample_ack 1"
      and t = "sample_transfer 1"]
  obtain k p doc where "get_unique_filepath ?fs ''out'' ''report.docx'' = Some p"
    and "ack_generate half_em_width ?fs ''out'' (sample_ack 1) (Some ''report.docx'')
           = Some (p, ?fs(p \<mapsto> doc))"
    by blast
  with e have "ack_generate half_em_width ?fs ''out'' (sample_ack 1) (Some ''report.docx'')
           = Some (''out/report. (#2).pdf'', ?fs(''out/report. (#2).pdf'' \<mapsto> doc))"
    by simp
  with h1 h2 e show ?thesis by blast
qed

text \<open>The generated names end in \<^verbatim>\<open>.pdf\<close> and do not start with a slash.\<close>

lemma clean_no_slash: "x \<noteq> [] \<Longrightarrow> clean x \<noteq> [] \<and> hd (clean x) \<noteq> CHR ''/''"
  by (cases x) (simp_all add: clean_map invalid_chars_def)

lemma strip_or_unknown_nonempty: "strip_or_unknown x \<noteq> []"
  by (simp add: strip_or_unknown_def)

lemma ack_filename_shape:
  "\<exists>b. ack_generate_filename a = b @ ''.pdf'' \<and> b \<noteq> [] \<and> hd b \<noteq> CHR ''/''"
proof -
  let ?e = "clean (strip_or_unknown (emp_id a))"
  have "?e \<noteq> [] \<and> hd ?e \<noteq> CHR ''/''"
    by (rule clean_no_slash) (rule strip_or_unknown_nonempty)
  then have "\<And>r. ?e @ r \<noteq> [] \<and> hd (?e @ r) \<noteq> CHR ''/''" by simp
  then show ?thesis
    unfolding ack_generate_filename_def Let_def
    by (metis append.assoc)
qed

lemma transfer_filename_shape:
  "\<exists>b. transfer_generate_filename t = b @ ''.pdf'' \<and> b \<noteq> [] \<and> hd b \<noteq> CHR ''/''"
proof -
  let ?b = "''Asset Transfer - From '' @ clean (strip_or_unknown (from_emp_id t)) @ ''-''
           @ clean (strip_or_unknown (from_name t)) @ '' to ''
           @ clean (strip_or_unknown (to_emp_id t)) @ ''-''
           @ clean (strip_or_unknown (to_name t))"
  have "transfer_generate_filename t = ?b @ ''.pdf''"
    by (simp add: transfer_generate_filename_def Let_def)
  moreover have "?b \<noteq> [] \<and> hd ?b \<noteq> CHR ''/''" by simp
  ultimately show ?thesis by blast
qed

lemma get_unique_filepath_twice:
  assumes b: "b \<noteq> []" "hd b \<noteq> CHR ''/''"
    and free: "fs (path_join output_dir (b @ ''.pdf'')) = None"
      "fs (path_join output_dir (b @ '' (#2).pdf'')) = None"
  shows "get_unique_filepath fs output_dir (b @ ''.pdf'') = Some (path_join output_dir (b @ ''.pdf''))
       \<and> get_unique_filepath (fs(path_join output_dir (b @ ''.pdf'') \<mapsto> d)) output_dir (b @ ''.pdf'')
           = Some (path_join output_dir (b @ '' (#2).pdf''))
       \<and> path_join output_dir (b @ ''.pdf'') \<noteq> path_join output_dir (b @ '' (#2).pdf'')"
proof -
  let ?P = "if output_dir = [] \<or> last output_dir = CHR ''/'' then output_dir else output_dir @ ''/''"
  from b have p1: "path_join output_dir (b @ ''.pdf'') = ?P @ b @ ''.pdf''"
    by (subst path_join_plain) simp_all
  from b have p2: "path_join output_dir (b @ '' (#2).pdf'') = ?P @ b @ '' (#2).pdf''"
    by (subst path_join_plain) simp_all
  have ne: "path_join output_dir (b @ ''.pdf'') \<noteq> path_join output_dir (b @ '' (#2).pdf'')"
    unfolding p1 p2 by simp
  have first: "get_unique_filepath fs output_dir (b @ ''.pdf'') = Some (path_join output_dir (b @ ''.pdf''))"
    using free(1) by (simp add: get_unique_filepath_def)
  have c2: "candidate output_dir b 2 = path_join output_dir (b @ '' (#2).pdf'')"
    by (simp add: candidate_def py_str_2)
  let ?fs1 = "fs(path_join output_dir (b @ ''.pdf'') \<mapsto> d)"
  have "?fs1 (candidate output_dir b 2) = None"
    unfolding c2 using ne free(2) by simp
  then have "find_unique ?fs1 output_dir b 2 = Some (candidate output_dir b 2)"
    by (subst find_unique.simps) simp
  then have second: "get_unique_filepath ?fs1 output_dir (b @ ''.pdf'')
           = Some (path_join output_dir (b @ '' (#2).pdf''))"
    unfolding c2 by (simp add: get_unique_filepath_def)
  from first second ne show ?thesis by blast
qed

text \<open>
  Claim C9. When the resolved path of a name ending in \<^verbatim>\<open>.pdf\<close> exists, the resolver
  strips the suffix and appends \<^verbatim>\<open> (#2)\<close>, \<^verbatim>\<open> (#3)\<close>, ... before \<^verbatim>\<open>.pdf\<close>, returning
  the first path that does not exist. Calling \<^verbatim>\<open>generate\<close> twice with the same data, when
  neither the generated name nor its \<^verbatim>\<open> (#2)\<close> variant existed before, writes two distinct
  files: the second name is the first with \<^verbatim>\<open> (#2)\<close> inserted before \<^verbatim>\<open>.pdf\<close>, and the first
  file is left as it was written.
\<close>

theorem generate_twice_numbered:
  "(finite (dom fs) \<and> fs (path_join output_dir (base @ ''.pdf'')) \<noteq> None \<longrightarrow>
      (\<exists>k\<ge>2. get_unique_filepath fs output_dir (base @ ''.pdf'')
                 = Some (path_join output_dir (base @ '' (#'' @ py_str k @ '')'' @ ''.pdf''))
          \<and> fs (path_join output_dir (base @ '' (#'' @ py_str k @ '')'' @ ''.pdf'')) = None
          \<and> (\<forall>j. 2 \<le> j \<and> j < k \<longrightarrow>
                fs (path_join output_dir (base @ '' (#'' @ py_str j @ '')'' @ ''.pdf'')) \<noteq> None)))
   \<and> (\<exists>b. ack_generate_filename a = b @ ''.pdf''
        \<and> (fs (path_join output_dir (b @ ''.pdf'')) = None
           \<and> fs (path_join output_dir (b @ '' (#2)'' @ ''.pdf'')) = None \<longrightarrow>
           (\<exists>fs1 fs2.
              ack_generate c fs output_dir a None = Some (path_join output_dir (b @ ''.pdf''), fs1)
            \<and> ack_generate c fs1 output_dir a None
                = Some (path_join output_dir (b @ '' (#2)'' @ ''.pdf''), fs2)
            \<and> path_join output_dir (b @ ''.pdf'') \<noteq> path_join output_dir (b @ '' (#2)'' @ ''.pdf'')
            \<and> fs2 (path_join output_dir (b @ ''.pdf'')) = fs1 (path_join output_dir (b @ ''.pdf''))
            \<and> fs1 (path_join output_dir (b @ ''.pdf'')) \<noteq> None
            \<and> fs2 (path_join output_dir (b @ '' (#2)'' @ ''.pdf'')) \<noteq> None)))
   \<and> (\<exists>b. transfer_generate_filename t = b @ ''.pdf''
        \<and> (fs (path_join output_dir (b @ ''.pdf'')) = None
           \<and> fs (path_join output_dir (b @ '' (#2)'' @ ''.pdf'')) = None \<longrightarrow>
           (\<exists>fs1 fs2.
              transfer_generate c fs output_dir t None
                = Some (path_join output_dir (b @ ''.pdf''), fs1)
            \<and> transfer_generate c fs1 output_dir t None
                = Some (path_join output_dir (b @ '' (#2)'' @ ''.pdf''), fs2)
            \<and> path_join output_dir (b @ ''.pdf'') \<noteq> path_join output_dir (b @ '' (#2)'' @ ''.pdf'')
            \<and> fs2 (path_join output_dir (b @ ''.pdf'')) = fs1 (path_join output_dir (b @ ''.pdf''))
            \<and> fs1 (path_join output_dir (b @ ''.pdf'')) \<noteq> None
            \<and> fs2 (path_join output_dir (b @ '' (#2)'' @ ''.pdf'')) \<noteq> None)))"
proof (intro conjI)
  show "finite (dom fs) \<and> fs (path_join output_dir (base @ ''.pdf'')) \<noteq> None \<longrightarrow>
      (\<exists>k\<ge>2. get_unique_filepath fs output_dir (base @ ''.pdf'')
                 = Some (path_join output_dir (base @ '' (#'' @ py_str k @ '')'' @ ''.pdf''))
          \<and> fs (path_join output_dir (base @ '' (#'' @ py_str k @ '')'' @ ''.pdf'')) = None
          \<and> (\<forall>j. 2 \<le> j \<and> j < k \<longrightarrow>
                fs (path_join output_dir (base @ '' (#'' @ py_str j @ '')'' @ ''.pdf'')) \<noteq> None))"
  proof
    assume h: "finite (dom fs) \<and> fs (path_join output_dir (base @ ''.pdf'')) \<noteq> None"
    then have "finite (dom fs)" "fs (path_join output_dir (base @ ''.pdf'')) \<noteq> None" by blast+
    from get_unique_filepath_collision [OF this]
    show "\<exists>k\<ge>2. get_unique_filepath fs output_dir (base @ ''.pdf'')
                 = Some (path_join output_dir (base @ '' (#'' @ py_str k @ '')'' @ ''.pdf''))
          \<and> fs (path_join output_dir (base @ '' (#'' @ py_str k @ '')'' @ ''.pdf'')) = None
          \<and> (\<forall>j. 2 \<le> j \<and> j < k \<longrightarrow>
                fs (path_join output_dir (base @ '' (#'' @ py_str j @ '')'' @ ''.pdf'')) \<noteq> None)"
      by (simp add: candidate_def)
  qed
next
  obtain b where b: "ack_generate_filename a = b @ ''.pdf''" "b \<noteq> []" "hd b \<noteq> CHR ''/''"
    using ack_filename_shape by blast
  let ?p1 = "path_join output_dir (b @ ''.pdf'')"
  let ?p2 = "path_join output_dir (b @ '' (#2)'' @ ''.pdf'')"
  let ?doc = "add_signature_field (fst (ack_draw_form c a) @ [ShowPage]) (snd (ack_draw_form c a))"
  have "fs ?p1 = None \<and> fs ?p2 = None \<longrightarrow>
           (\<exists>fs1 fs2. ack_generate c fs output_dir a None = Some (?p1, fs1)
            \<and> ack_generate c fs1 output_dir a None = Some (?p2, fs2)
            \<and> ?p1 \<noteq> ?p2 \<and> fs2 ?p1 = fs1 ?p1 \<and> fs1 ?p1 \<noteq> None \<and> fs2 ?p2 \<noteq> None)"
  proof
    assume "fs ?p1 = None \<and> fs ?p2 = None"
    then have free: "fs ?p1 = None" "fs (path_join output_dir (b @ '' (#2).pdf'')) = None" by simp_all
    note tw = get_unique_filepath_twice [OF b(2,3) free, of ?doc]
    let ?fs1 = "fs(?p1 \<mapsto> ?doc)"
    let ?fs2 = "?fs1(?p2 \<mapsto> ?doc)"
    have g1: "ack_generate c fs output_dir a None = Some (?p1, ?fs1)"
      by (rule ack_generate_writes) (simp add: b(1) tw)
    have g2: "ack_generate c ?fs1 output_dir a None = Some (?p2, ?fs2)"
      by (rule ack_generate_writes) (simp add: b(1) tw)
    from tw have ne: "?p1 \<noteq> ?p2" by simp
    then have "?fs2 ?p1 = ?fs1 ?p1" "?fs1 ?p1 \<noteq> None" "?fs2 ?p2 \<noteq> None" by simp_all
    with g1 g2 ne show "\<exists>fs1 fs2. ack_generate c fs output_dir a None = Some (?p1, fs1)
            \<and> ack_generate c fs1 output_dir a None = Some (?p2, fs2)
            \<and> ?p1 \<noteq> ?p2 \<and> fs2 ?p1 = fs1 ?p1 \<and> fs1 ?p1 \<noteq> None \<and> fs2 ?p2 \<noteq> None"
      by blast
  qed
  with b(1) show "\<exists>b. ack_generate_filename a = b @ ''.pdf''
        \<and> (fs (path_join output_dir (b @ ''.pdf'')) = None
           \<and> fs (path_join output_dir (b @ '' (#2)'' @ ''.pdf'')) = None \<longrightarrow>
           (\<exists>fs1 fs2.
              ack_generate c fs output_dir a None = Some (path_join output_dir (b @ ''.pdf''), fs1)
            \<and> ack_generate c fs1 output_dir a None
                = Some (path_join output_dir (b @ '' (#2)'' @ ''.pdf''), fs2)
            \<and> path_join output_dir (b @ ''.pdf'') \<noteq> path_join output_dir (b @ '' (#2)'' @ ''.pdf'')
            \<and> fs2 (path_join output_dir (b @ ''.pdf'')) = fs1 (path_join output_dir (b @ ''.pdf''))
            \<and> fs1 (path_join output_dir (b @ ''.pdf'')) \<noteq> None
            \<and> fs2 (path_join output_dir (b @ '' (#2)'' @ ''.pdf'')) \<noteq> None))"
    by blast
next
  obtain b where b: "transfer_generate_filename t = b @ ''.pdf''" "b \<noteq> []" "hd b \<noteq> CHR ''/''"
    using transfer_filename_shape by blast
  let ?p1 = "path_join output_dir (b @ ''.pdf'')"
  let ?p2 = "path_join output_dir (b @ '' (#2)'' @ ''.pdf'')"
  let ?doc = "add_signature_field (fst (transfer_draw_form c t) @ [ShowPage])
                (snd (transfer_draw_form c t))"
  have "fs ?p1 = None \<and> fs ?p2 = None \<longrightarrow>
           (\<exists>fs1 fs2. transfer_generate c fs output_dir t None = Some (?p1, fs1)
            \<and> transfer_generate c fs1 output_dir t None = Some (?p2, fs2)
            \<and> ?p1 \<noteq> ?p2 \<and> fs2 ?p1 = fs1 ?p1 \<and> fs1 ?p1 \<noteq> None \<and> fs2 ?p2 \<noteq> None)"
  proof
    assume "fs ?p1 = None \<and> fs ?p2 = None"
    then have free: "fs ?p1 = None" "fs (path_join output_dir (b @ '' (#2).pdf'')) = None" by simp_all
    note tw = get_unique_filepath_twice [OF b(2,3) free, of ?doc]
    let ?fs1 = "fs(?p1 \<mapsto> ?doc)"
    let ?fs2 = "?fs1(?p2 \<mapsto> ?doc)"
    have g1: "transfer_generate c fs output_dir t None = Some (?p1, ?fs1)"
      by (rule transfer_generate_writes) (simp add: b(1) tw)
    have g2: "transfer_generate c ?fs1 output_dir t None = Some (?p2, ?fs2)"
      by (rule transfer_generate_writes) (simp add: b(1) tw)
    from tw have ne: "?p1 \<noteq> ?p2" by simp
    then have "?fs2 ?p1 = ?fs1 ?p1" "?fs1 ?p1 \<noteq> None" "?fs2 ?p2 \<noteq> None" by simp_all
    with g1 g2 ne show "\<exists>fs1 fs2. transfer_generate c fs output_dir t None = Some (?p1, fs1)
            \<and> transfer_generate c fs1 output_dir t None = Some (?p2, fs2)
            \<and> ?p1 \<noteq> ?p2 \<and> fs2 ?p1 = fs1 ?p1 \<and> fs1 ?p1 \<noteq> None \<and> fs2 ?p2 \<noteq> None"
      by blast
  qed
  with b(1) show "\<exists>b. transfer_generate_filename t = b @ ''.pdf''
        \<and> (fs (path_join output_dir (b @ ''.pdf'')) = None
           \<and> fs (path_join output_dir (b @ '' (#2)'' @ ''.pdf'')) = None \<longrightarrow>
           (\<exists>fs1 fs2.
              transfer_generate c fs output_dir t None
                = Some (path_join output_dir (b @ ''.pdf''), fs1)
            \<and> transfer_generate c fs1 output_dir t None
                = Some (path_join output_dir (b @ '' (#2)'' @ ''.pdf''), fs2)
            \<and> path_join output_dir (b @ ''.pdf'') \<noteq> path_join output_dir (b @ '' (#2)'' @ ''.pdf'')
            \<and> fs2 (path_join output_dir (b @ ''.pdf'')) = fs1 (path_join output_dir (b @ ''.pdf''))
            \<and> fs1 (path_join output_dir (b @ ''.pdf'')) \<noteq> None
            \<and> fs2 (path_join output_dir (b @ '' (#2)'' @ ''.pdf'')) \<noteq> None))"
    by blast
qed

theorem generate_twice_numbered_witness:
  "get_unique_filepath [''output/x.pdf'' \<mapsto> blank_pdf] ''output'' ''x.pdf''
     = Some ''output/x (#2).pdf''
   \<and> (\<exists>fs1 fs2.
        ack_generate half_em_width [''output/x.pdf'' \<mapsto> blank_pdf] ''output'' (sample_ack 1) None
          = Some (''output/Unknown - A. User - acknowledgement form Laptop 15_16 _Pro__ a very lon.pdf'',
                  fs1)
      \<and> ack_generate half_em_width fs1 ''output'' (sample_ack 1) None
          = Some (''output/Unknown - A. User - acknowledgement form Laptop 15_16 _Pro__ a very lon (#2).pdf'',
                  fs2))
   \<and> (\<exists>fs1 fs2.
        transfer_generate half_em_width [''output/x.pdf'' \<mapsto> blank_pdf] ''output''
            (sample_transfer 1) None
          = Some (''output/Asset Transfer - From Unknown-Unknown to 77-B_C.pdf'', fs1)
      \<and> transfer_generate half_em_width fs1 ''output'' (sample_transfer 1) None
          = Some (''output/Asset Transfer - From Unknown-Unknown to 77-B_C (#2).pdf'', fs2))"
proof -
  let ?fs = "[''output/x.pdf'' \<mapsto> blank_pdf]"
  let ?A = "''Unknown - A. User - acknowledgement form Laptop 15_16 _Pro__ a very lon''"
  let ?T = "''Asset Transfer - From Unknown-Unknown to 77-B_C''"
  note inst = generate_twice_numbered [of ?fs "''output''" "''x''" "sample_ack 1" half_em_width
      "sample_transfer 1"]
  have e: "get_unique_filepath ?fs ''output'' ''x.pdf'' = Some ''output/x (#2).pdf''"
    by (simp add: get_unique_filepath_def path_join_def find_unique.simps candidate_def py_str_2)
  have fa: "ack_generate_filename (sample_ack 1) = ?A @ ''.pdf''"
    by (simp add: ack_generate_filename_def sample_ack_def sample_item_def strip_or_unknown_def
        py_strip_def is_space_def whitespace_def clean_map invalid_chars_def)
  have ft: "transfer_generate_filename (sample_transfer 1) = ?T @ ''.pdf''"
    by (simp add: transfer_generate_filename_def sample_transfer_def strip_or_unknown_def
        py_strip_def is_space_def whitespace_def clean_map invalid_chars_def)
  from inst obtain b where b: "ack_generate_filename (sample_ack 1) = b @ ''.pdf''"
    and bi: "?fs (path_join ''output'' (b @ ''.pdf'')) = None
           \<and> ?fs (path_join ''output'' (b @ '' (#2)'' @ ''.pdf'')) = None \<longrightarrow>
           (\<exists>fs1 fs2.
              ack_generate half_em_width ?fs ''output'' (sample_ack 1) None
                = Some (path_join ''output'' (b @ ''.pdf''), fs1)
            \<and> ack_generate half_em_width fs1 ''output'' (sample_ack 1) None
                = Some (path_join ''output'' (b @ '' (#2)'' @ ''.pdf''), fs2))"
    by blast
  from b fa have "b = ?A" using append_same_eq by metis
  with bi have a: "\<exists>fs1 fs2.
        ack_generate half_em_width ?fs ''output'' (sample_ack 1) None
          = Some (''output/Unknown - A. User - acknowledgement form Laptop 15_16 _Pro__ a very lon.pdf'',
                  fs1)
      \<and> ack_generate half_em_width fs1 ''output'' (sample_ack 1) None
          = Some (''output/Unknown - A. User - acknowledgement form Laptop 15_16 _Pro__ a very lon (#2).pdf'',
                  fs2)"
    by (simp add: path_join_def)
  from inst obtain b' where b': "transfer_generate_filename (sample_transfer 1) = b' @ ''.pdf''"
    and bi': "?fs (path_join ''output'' (b' @ ''.pdf'')) = None
           \<and> ?fs (path_join ''output'' (b' @ '' (#2)'' @ ''.pdf'')) = None \<longrightarrow>
           (\<exists>fs1 fs2.
              transfer_generate half_em_width ?fs ''output'' (sample_transfer 1) None
                = Some (path_join ''output'' (b' @ ''.pdf''), fs1)
            \<and> transfer_generate half_em_width fs1 ''output'' (sample_transfer 1) None
                = Some (path_join ''output'' (b' @ '' (#2)'' @ ''.pdf''), fs2))"
    by blast
  from b' ft have "b' = ?T" using append_same_eq by metis
  with bi' have t: "\<exists>fs1 fs2.
        transfer_generate half_em_width ?fs ''output'' (sample_transfer 1) None
          = Some (''output/Asset Transfer - From Unknown-Unknown to 77-B_C.pdf'', fs1)
      \<and> transfer_generate half_em_width fs1 ''output'' (sample_transfer 1) None
          = Some (''output/Asset Transfer - From Unknown-Unknown to 77-B_C (#2).pdf'', fs2)"
    by (simp add: path_join_def)
  from e a t show ?thesis by blast
qed

subsection \<open>Tables\<close>

lemma table_rows_append [simp]: "table_rows (xs @ ys) = table_rows xs @ table_rows ys"
  by (simp add: table_rows_def)

text \<open>One pass of the Acknowledgment row loop, by cases of its page-break check.\<close>

lemma ack_draw_row_cases:
  "ack_draw_row its (ops, y) i =
     (if y - ack_row_height < ack_bottom_margin + 4 * inch
      then (ops @ [ShowPage, TableHeader (ack_height - ack_margin),
                   DataRow (ack_height - ack_margin - ack_header_height) (ack_row_cells its i)],
            ack_height - ack_margin - ack_header_height - ack_row_height)
      else (ops @ [DataRow y (ack_row_cells its i)], y - ack_row_height))"
  by (simp add: ack_draw_row_def)

text \<open>A row drawn first on a new page, under the header, is above the reserve.\<close>

lemma fresh_page_fits:
  "ack_bottom_margin + 4 * inch \<le> ack_height - ack_margin - ack_header_height - ack_row_height"
  by (simp add: ack_bottom_margin_def ack_height_def ack_margin_def ack_header_height_def
      ack_row_height_def A4_height_def mm_def inch_def)

lemma ack_rows_cells:
  "map snd (table_rows (fst (foldl (ack_draw_row its) (ops, y) [0..<n])))
     = map snd (table_rows ops) @ map (ack_row_cells its) [0..<n]"
proof (induction n)
  case 0
  then show ?case by simp
next
  case (Suc n)
  obtain ops' y' where s: "foldl (ack_draw_row its) (ops, y) [0..<n] = (ops', y')"
    by (cases "foldl (ack_draw_row its) (ops, y) [0..<n]")
  with Suc show ?case
    by (simp add: ack_draw_row_cases table_rows_def)
qed

lemma ack_rows_fit:
  assumes "\<forall>y' cells. DataRow y' cells \<in> set ops \<longrightarrow> ack_bottom_margin + 4 * inch \<le> y' - ack_row_height"
  shows "\<forall>y' cells. DataRow y' cells \<in> set (fst (foldl (ack_draw_row its) (ops, y) [0..<n]))
            \<longrightarrow> ack_bottom_margin + 4 * inch \<le> y' - ack_row_height"
proof (induction n)
  case 0
  with assms show ?case by simp
next
  case (Suc n)
  obtain ops' y' where s: "foldl (ack_draw_row its) (ops, y) [0..<n] = (ops', y')"
    by (cases "foldl (ack_draw_row its) (ops, y) [0..<n]")
  with Suc show ?case
    using fresh_page_fits by (auto simp: ack_draw_row_cases)
qed

text \<open>
  Invariant of the row loop: every page break is followed by the header row at the top
  margin and a data row under it.
\<close>

lemma ack_breaks_step_row:
  assumes "\<forall>i. i < length ops \<and> ops ! i = ShowPage \<longrightarrow>
       i + 2 < length ops \<and> ops ! (i + 1) = TableHeader t
       \<and> (\<exists>cells. ops ! (i + 2) = DataRow r cells)"
  shows "\<forall>i. i < length (ops @ [DataRow y c]) \<and> (ops @ [DataRow y c]) ! i = ShowPage \<longrightarrow>
       i + 2 < length (ops @ [DataRow y c]) \<and> (ops @ [DataRow y c]) ! (i + 1) = TableHeader t
       \<and> (\<exists>cells. (ops @ [DataRow y c]) ! (i + 2) = DataRow r cells)"
  using assms by (auto simp: nth_append less_Suc_eq)

lemma ack_breaks_step_page:
  assumes "\<forall>i. i < length ops \<and> ops ! i = ShowPage \<longrightarrow>
       i + 2 < length ops \<and> ops ! (i + 1) = TableHeader t
       \<and> (\<exists>cells. ops ! (i + 2) = DataRow r cells)"
  shows "\<forall>i. i < length (ops @ [ShowPage, TableHeader t, DataRow r c])
         \<and> (ops @ [ShowPage, TableHeader t, DataRow r c]) ! i = ShowPage \<longrightarrow>
       i + 2 < length (ops @ [ShowPage, TableHeader t, DataRow r c])
       \<and> (ops @ [ShowPage, TableHeader t, DataRow r c]) ! (i + 1) = TableHeader t
       \<and> (\<exists>cells. (ops @ [ShowPage, TableHeader t, DataRow r c]) ! (i + 2) = DataRow r cells)"
  using assms by (auto simp: nth_append less_Suc_eq nth_Cons')

lemma ack_rows_breaks:
  assumes "\<forall>i. i < length ops \<and> ops ! i = ShowPage \<longrightarrow>
       i + 2 < length ops \<and> ops ! (i + 1) = TableHeader (ack_height - ack_margin)
       \<and> (\<exists>cells. ops ! (i + 2) = DataRow (ack_height - ack_margin - ack_header_height) cells)"
  shows "\<forall>i. i < length (fst (foldl (ack_draw_row its) (ops, y) [0..<n]))
          \<and> fst (foldl (ack_draw_row its) (ops, y) [0..<n]) ! i = ShowPage \<longrightarrow>
       i + 2 < length (fst (foldl (ack_draw_row its) (ops, y) [0..<n]))
       \<and> fst (foldl (ack_draw_row its) (ops, y) [0..<n]) ! (i + 1)
           = TableHeader (ack_height - ack_margin)
       \<and> (\<exists>cells. fst (foldl (ack_draw_row its) (ops, y) [0..<n]) ! (i + 2)
              = DataRow (ack_height - ack_margin - ack_header_height) cells)"
proof (induction n)
  case 0
  with assms show ?case by simp
next
  case (Suc n)
  obtain ops' y' where s: "foldl (ack_draw_row its) (ops, y) [0..<n] = (ops', y')"
    by (cases "foldl (ack_draw_row its) (ops, y) [0..<n]")
  from Suc s have inv: "\<forall>i. i < length ops' \<and> ops' ! i = ShowPage \<longrightarrow>
       i + 2 < length ops' \<and> ops' ! (i + 1) = TableHeader (ack_height - ack_margin)
       \<and> (\<exists>cells. ops' ! (i + 2) = DataRow (ack_height - ack_margin - ack_header_height) cells)"
    by simp
  show ?case
  proof (cases "y' - ack_row_height < ack_bottom_margin + 4 * inch")
    case True
    with s ack_breaks_step_page [OF inv, of "ack_row_cells its n"] show ?thesis
      by (simp add: ack_draw_row_cases)
  next
    case False
    with s ack_breaks_step_row [OF inv, of y' "ack_row_cells its n"] show ?thesis
      by (simp add: ack_draw_row_cases)
  qed
qed

text \<open>The Transfer row loop moves the cursor down by one row height per row, and only so.\<close>

lemma transfer_rows:
  "foldl (transfer_draw_row as) (ops, y) [0..<n] =
     (ops @ map (\<lambda>i. DataRow (y - of_nat i * transfer_row_height) (transfer_row_cells as i)) [0..<n],
      y - of_nat n * transfer_row_height)"
  by (induction n) (simp_all add: transfer_draw_row_def algebra_simps)

lemma transfer_table_ops:
  "transfer_draw_assets_table y as =
     (TableHeader y #
        map (\<lambda>i. DataRow (y - transfer_header_height - of_nat i * transfer_row_height)
                    (transfer_row_cells as i)) [0..<max 1 (length as)],
      y - transfer_header_height - of_nat (max 1 (length as)) * transfer_row_height - 0.3 * inch)"
proof -
  have "(if as \<noteq> [] then length as else 1) = max 1 (length as)"
    by (cases as) simp_all
  then show ?thesis
    by (simp add: transfer_draw_assets_table_def transfer_rows Let_def)
qed

lemma table_rows_map_DataRow:
  "table_rows (map (\<lambda>i. DataRow (f i) (g i)) xs) = map (\<lambda>i. (f i, g i)) xs"
  by (induction xs) (simp_all add: table_rows_def)

lemma ack_num_rows: "(if its \<noteq> [] then length its else 1) = max 1 (length its)"
  by (cases its) simp_all

lemma ack_table_ops:
  "fst (ack_draw_items_table y its)
     = fst (foldl (ack_draw_row its) ([TableHeader y], y - ack_header_height)
              [0..<max 1 (length its)])"
  by (simp add: ack_draw_items_table_def ack_num_rows split_def Let_def)

text \<open>The cursor of the row loop, and the operations of the table pass by pass.\<close>

lemma ack_row_cursor_0: "ack_row_cursor y its 0 = y - ack_header_height"
  by (simp add: ack_row_cursor_def)

lemma ack_row_cursor_Suc:
  "ack_row_cursor y its (Suc row_num) =
     (if ack_row_cursor y its row_num - ack_row_height < ack_bottom_margin + 4 * inch
      then ack_height - ack_margin - ack_header_height
      else ack_row_cursor y its row_num) - ack_row_height"
proof -
  obtain ops c where s: "foldl (ack_draw_row its) ([TableHeader y], y - ack_header_height)
      [0..<row_num] = (ops, c)"
    by (cases "foldl (ack_draw_row its) ([TableHeader y], y - ack_header_height) [0..<row_num]")
  then show ?thesis
    by (simp add: ack_row_cursor_def ack_draw_row_cases)
qed

lemma ack_rows_ops:
  "fst (foldl (ack_draw_row its) ([TableHeader y], y - ack_header_height) [0..<n])
     = TableHeader y #
       concat (map (\<lambda>row_num.
           if ack_row_cursor y its row_num - ack_row_height < ack_bottom_margin + 4 * inch
           then [ShowPage, TableHeader (ack_height - ack_margin),
                 DataRow (ack_height - ack_margin - ack_header_height) (ack_row_cells its row_num)]
           else [DataRow (ack_row_cursor y its row_num) (ack_row_cells its row_num)])
         [0..<n])"
proof (induction n)
  case 0
  then show ?case by simp
next
  case (Suc n)
  obtain ops c where s: "foldl (ack_draw_row its) ([TableHeader y], y - ack_header_height)
      [0..<n] = (ops, c)"
    by (cases "foldl (ack_draw_row its) ([TableHeader y], y - ack_header_height) [0..<n]")
  then have c: "ack_row_cursor y its n = c" by (simp add: ack_row_cursor_def)
  from Suc s have ops: "ops = TableHeader y #
       concat (map (\<lambda>row_num.
           if ack_row_cursor y its row_num - ack_row_height < ack_bottom_margin + 4 * inch
           then [ShowPage, TableHeader (ack_height - ack_margin),
                 DataRow (ack_height - ack_margin - ack_header_height) (ack_row_cells its row_num)]
           else [DataRow (ack_row_cursor y its row_num) (ack_row_cells its row_num)])
         [0..<n])"
    by simp
  show ?case
    using s c by (simp add: ack_draw_row_cases ops [symmetric])
qed

lemma ack_table_cursor:
  "snd (ack_draw_items_table y its) = ack_row_cursor y its (max 1 (length its)) - 0.25 * inch"
  by (simp add: ack_draw_items_table_def ack_row_cursor_def ack_num_rows split_def Let_def)

text \<open>
  Claim C4. The Acknowledgment table is its header row followed, for each row number in
  order, by what one pass of the loop draws: the pass checks
  \<open>cursor - row_height < bottom_margin + 4 inch\<close> on the cursor the passes before it
  left (the cursor under the header for the first); when the check holds it starts a new
  page, redraws the header row at the top margin and draws the row under it, and
  otherwise it draws the row at the cursor. So every data row lies above the bottom
  margin plus the reserve (none crosses the page end), and every page break of the table
  is followed by the header row and then a data row. The Transfer table is its header row
  followed by its rows one row height apart, with no check and no page break, whatever
  their number.
\<close>

theorem ack_table_pagination:
  "fst (ack_draw_items_table y its)
     = TableHeader y #
       concat (map (\<lambda>row_num.
           if ack_row_cursor y its row_num - ack_row_height < ack_bottom_margin + 4 * inch
           then [ShowPage, TableHeader (ack_height - ack_margin),
                 DataRow (ack_height - ack_margin - ack_header_height) (ack_row_cells its row_num)]
           else [DataRow (ack_row_cursor y its row_num) (ack_row_cells its row_num)])
         [0..<max 1 (length its)])
   \<and> ack_row_cursor y its 0 = y - ack_header_height
   \<and> (\<forall>row_num. ack_row_cursor y its (Suc row_num) =
         (if ack_row_cursor y its row_num - ack_row_height < ack_bottom_margin + 4 * inch
          then ack_height - ack_margin - ack_header_height
          else ack_row_cursor y its row_num) - ack_row_height)
   \<and> snd (ack_draw_items_table y its)
       = ack_row_cursor y its (max 1 (length its)) - 0.25 * inch
   \<and> (\<forall>y' cells. DataRow y' cells \<in> set (fst (ack_draw_items_table y its)) \<longrightarrow>
       ack_bottom_margin + 4 * inch \<le> y' - ack_row_height)
   \<and> (\<forall>i. i < length (fst (ack_draw_items_table y its))
          \<and> fst (ack_draw_items_table y its) ! i = ShowPage \<longrightarrow>
        i + 2 < length (fst (ack_draw_items_table y its))
        \<and> fst (ack_draw_items_table y its) ! (i + 1) = TableHeader (ack_height - ack_margin)
        \<and> (\<exists>cells. fst (ack_draw_items_table y its) ! (i + 2)
               = DataRow (ack_height - ack_margin - ack_header_height) cells))
   \<and> (\<forall>ops y0 row_num. ack_draw_row its (ops, y0) row_num =
        (if y0 - ack_row_height < ack_bottom_margin + 4 * inch
         then (ops @ [ShowPage, TableHeader (ack_height - ack_margin),
                      DataRow (ack_height - ack_margin - ack_header_height)
                        (ack_row_cells its row_num)],
               ack_height - ack_margin - ack_header_height - ack_row_height)
         else (ops @ [DataRow y0 (ack_row_cells its row_num)], y0 - ack_row_height)))
   \<and> fst (transfer_draw_assets_table y as)
       = TableHeader y #
         map (\<lambda>row_num. DataRow (y - transfer_header_height - of_nat row_num * transfer_row_height)
                          (transfer_row_cells as row_num))
           [0..<max 1 (length as)]
   \<and> ShowPage \<notin> set (fst (transfer_draw_assets_table y as))
   \<and> map fst (table_rows (fst (transfer_draw_assets_table y as)))
       = map (\<lambda>i. y - transfer_header_height - of_nat i * transfer_row_height)
           [0..<max 1 (length as)]"
proof (intro conjI)
  show "fst (ack_draw_items_table y its)
     = TableHeader y #
       concat (map (\<lambda>row_num.
           if ack_row_cursor y its row_num - ack_row_height < ack_bottom_margin + 4 * inch
           then [ShowPage, TableHeader (ack_height - ack_margin),
                 DataRow (ack_height - ack_margin - ack_header_height) (ack_row_cells its row_num)]
           else [DataRow (ack_row_cursor y its row_num) (ack_row_cells its row_num)])
         [0..<max 1 (length its)])"
    unfolding ack_table_ops by (rule ack_rows_ops)
next
  show "ack_row_cursor y its 0 = y - ack_header_height"
    by (rule ack_row_cursor_0)
next
  show "\<forall>row_num. ack_row_cursor y its (Suc row_num) =
         (if ack_row_cursor y its row_num - ack_row_height < ack_bottom_margin + 4 * inch
          then ack_height - ack_margin - ack_header_height
          else ack_row_cursor y its row_num) - ack_row_height"
    by (intro allI) (rule ack_row_cursor_Suc)
next
  show "snd (ack_draw_items_table y its)
       = ack_row_cursor y its (max 1 (length its)) - 0.25 * inch"
    by (rule ack_table_cursor)
next
  show "\<forall>y' cells. DataRow y' cells \<in> set (fst (ack_draw_items_table y its)) \<longrightarrow>
       ack_bottom_margin + 4 * inch \<le> y' - ack_row_height"
    using ack_rows_fit [of "[TableHeader y]" its "y - ack_header_height" "max 1 (length its)"]
    by (simp add: ack_table_ops)
next
  show "\<forall>i. i < length (fst (ack_draw_items_table y its))
          \<and> fst (ack_draw_items_table y its) ! i = ShowPage \<longrightarrow>
        i + 2 < length (fst (ack_draw_items_table y its))
        \<and> fst (ack_draw_items_table y its) ! (i + 1) = TableHeader (ack_height - ack_margin)
        \<and> (\<exists>cells. fst (ack_draw_items_table y its) ! (i + 2)
               = DataRow (ack_height - ack_margin - ack_header_height) cells)"
    unfolding ack_table_ops
    by (rule ack_rows_breaks) (auto simp: nth_Cons')
next
  show "\<forall>ops y0 row_num. ack_draw_row its (ops, y0) row_num =
        (if y0 - ack_row_height < ack_bottom_margin + 4 * inch
         then (ops @ [ShowPage, TableHeader (ack_height - ack_margin),
                      DataRow (ack_height - ack_margin - ack_header_height)
                        (ack_row_cells its row_num)],
               ack_height - ack_margin - ack_header_height - ack_row_height)
         else (ops @ [DataRow y0 (ack_row_cells its row_num)], y0 - ack_row_height))"
    by (simp add: ack_draw_row_cases)
next
  show "fst (transfer_draw_assets_table y as)
       = TableHeader y #
         map (\<lambda>row_num. DataRow (y - transfer_header_height - of_nat row_num * transfer_row_height)
                          (transfer_row_cells as row_num))
           [0..<max 1 (length as)]"
    by (simp add: transfer_table_ops)
next
  show "ShowPage \<notin> set (fst (transfer_draw_assets_table y as))"
    by (auto simp: transfer_table_ops)
next
  show "map fst (table_rows (fst (transfer_draw_assets_table y as)))
       = map (\<lambda>i. y - transfer_header_height - of_nat i * transfer_row_height)
           [0..<max 1 (length as)]"
    by (simp add: transfer_table_ops table_rows_def table_rows_map_DataRow [unfolded table_rows_def] comp_def)
qed

text \<open>Evaluating the model on concrete input.\<close>

lemma digit_chars:
  "digit_char 0 = CHR ''0''" "digit_char 1 = CHR ''1''" "digit_char 2 = CHR ''2''"
  "digit_char 3 = CHR ''3''" "digit_char 4 = CHR ''4''" "digit_char 5 = CHR ''5''"
  "digit_char 6 = CHR ''6''" "digit_char 7 = CHR ''7''" "digit_char 8 = CHR ''8''"
  "digit_char 9 = CHR ''9''" "digit_char (Suc 0) = CHR ''1''"
  "digit_char (Suc (Suc 0)) = CHR ''2''"
  by code_simp+

lemma upt_numeral_unfold: "[m..<numeral n] = (if m < numeral n then m # [Suc m..<numeral n] else [])"
  by (rule upt_rec)

lemmas layout_consts =
  ack_height_def ack_width_def ack_margin_def ack_header_height_def ack_row_height_def
  ack_bottom_margin_def transfer_height_def transfer_width_def transfer_margin_def
  transfer_header_height_def transfer_row_height_def A4_height_def A4_width_def mm_def inch_def

theorem ack_table_pagination_witness:
  "fst (ack_draw_items_table (ack_height - ack_margin - 1.85 * inch) (items (sample_ack 15))) ! 14
     = ShowPage
   \<and> fst (ack_draw_items_table (ack_height - ack_margin - 1.85 * inch) (items (sample_ack 15))) ! 15
     = TableHeader (ack_height - ack_margin)
   \<and> (\<exists>cells.
        fst (ack_draw_items_table (ack_height - ack_margin - 1.85 * inch) (items (sample_ack 15))) ! 16
          = DataRow (ack_height - ack_margin - ack_header_height) cells)
   \<and> ack_row_cursor (ack_height - ack_margin - 1.85 * inch) (items (sample_ack 15)) 1
       = ack_height - ack_margin - 2.57 * inch
   \<and> ShowPage \<notin> set (fst (transfer_draw_assets_table (ack_height - ack_margin - 1.85 * inch)
                               (assets (sample_transfer 15))))"
proof -
  define y0 where "y0 = ack_height - ack_margin - 1.85 * inch"
  define its where "its = items (sample_ack 15)"
  define ops where "ops = fst (ack_draw_items_table y0 its)"
  note inst = ack_table_pagination [of y0 its "assets (sample_transfer 15)", folded ops_def]
  have e: "ops ! 14 = ShowPage"
    unfolding ops_def y0_def its_def
    by (simp add: ack_table_ops sample_ack_def ack_draw_row_cases upt_numeral_unfold
        layout_consts nth_append)
  have l: "14 < length ops"
    unfolding ops_def y0_def its_def
    by (simp add: ack_table_ops sample_ack_def ack_draw_row_cases upt_numeral_unfold
        layout_consts)
  note br = inst [THEN conjunct2, THEN conjunct2, THEN conjunct2, THEN conjunct2, THEN conjunct2,
      THEN conjunct1]
  from l e have "14 < length ops \<and> ops ! 14 = ShowPage" by (rule conjI)
  from br [THEN spec, THEN mp, OF this]
  have b: "ops ! 15 = TableHeader (ack_height - ack_margin)
        \<and> (\<exists>cells. ops ! 16 = DataRow (ack_height - ack_margin - ack_header_height) cells)"
    by simp
  note c0 = inst [THEN conjunct2, THEN conjunct1]
  note cs = inst [THEN conjunct2, THEN conjunct2, THEN conjunct1, THEN spec, of 0]
  have "ack_row_cursor y0 its (Suc 0) =
         (if y0 - ack_header_height - ack_row_height < ack_bottom_margin + 4 * inch
          then ack_height - ack_margin - ack_header_height
          else y0 - ack_header_height) - ack_row_height"
    using cs unfolding c0 .
  then have c1: "ack_row_cursor y0 its 1 = ack_height - ack_margin - 2.57 * inch"
    by (simp add: y0_def layout_consts)
  note t = inst [THEN conjunct2, THEN conjunct2, THEN conjunct2, THEN conjunct2, THEN conjunct2,
      THEN conjunct2, THEN conjunct2, THEN conjunct2, THEN conjunct1]
  from e b c1 t show ?thesis
    unfolding ops_def y0_def its_def by simp
qed

lemma enumerate_map_upt: "map (\<lambda>i. f i (xs ! i)) [0..<length xs] = map (\<lambda>(i, x). f i x) (enumerate 0 xs)"
  by (rule nth_equalityI) (simp_all add: nth_enumerate_eq)

text \<open>
  Claim C5. Both table drawers draw \<open>max 1 (number of input rows)\<close> data rows: for a
  non-empty list one row per input row, in input order, with the row number and the four
  fields cut by the cell rule; for the empty list one row without texts. Neither rejects
  the empty list.
\<close>

theorem table_rows_count:
  "map snd (table_rows (fst (ack_draw_items_table y its)))
     = (if its = [] then [[]]
        else map (\<lambda>(row_num, item).
                    map (\<lambda>(col, width). cell_text col width (ack_column_text item row_num col))
                      (enumerate 0 ack_col_widths))
               (enumerate 0 its))
   \<and> length (table_rows (fst (ack_draw_items_table y its))) = max 1 (length its)
   \<and> map snd (table_rows (fst (transfer_draw_assets_table y as)))
     = (if as = [] then [[]]
        else map (\<lambda>(row_num, a).
                    map (\<lambda>(col, width). cell_text col width (transfer_column_text a row_num col))
                      (enumerate 0 transfer_col_widths))
               (enumerate 0 as))
   \<and> length (table_rows (fst (transfer_draw_assets_table y as))) = max 1 (length as)"
proof -
  have a: "map snd (table_rows (fst (ack_draw_items_table y its)))
             = map (ack_row_cells its) [0..<max 1 (length its)]"
    unfolding ack_table_ops ack_rows_cells by (simp add: table_rows_def)
  have a1: "map (ack_row_cells its) [0..<max 1 (length its)]
     = (if its = [] then [[]]
        else map (\<lambda>(row_num, item).
                    map (\<lambda>(col, width). cell_text col width (ack_column_text item row_num col))
                      (enumerate 0 ack_col_widths))
               (enumerate 0 its))"
  proof (cases "its = []")
    case True
    then show ?thesis by (simp add: ack_row_cells_def)
  next
    case False
    then have m: "max 1 (length its) = length its" by (cases its) simp_all
    have "map (ack_row_cells its) [0..<length its]
        = map (\<lambda>i. (\<lambda>row_num item.
                    map (\<lambda>(col, width). cell_text col width (ack_column_text item row_num col))
                      (enumerate 0 ack_col_widths)) i (its ! i)) [0..<length its]"
      by (simp add: ack_row_cells_def)
    also have "\<dots> = map (\<lambda>(row_num, item).
                    map (\<lambda>(col, width). cell_text col width (ack_column_text item row_num col))
                      (enumerate 0 ack_col_widths))
               (enumerate 0 its)"
      by (rule enumerate_map_upt)
    finally show ?thesis using False m by simp
  qed
  have t: "map snd (table_rows (fst (transfer_draw_assets_table y as)))
             = map (transfer_row_cells as) [0..<max 1 (length as)]"
    by (simp add: transfer_table_ops table_rows_def table_rows_map_DataRow [unfolded table_rows_def]
        comp_def)
  have t1: "map (transfer_row_cells as) [0..<max 1 (length as)]
     = (if as = [] then [[]]
        else map (\<lambda>(row_num, a).
                    map (\<lambda>(col, width). cell_text col width (transfer_column_text a row_num col))
                      (enumerate 0 transfer_col_widths))
               (enumerate 0 as))"
  proof (cases "as = []")
    case True
    then show ?thesis by (simp add: transfer_row_cells_def)
  next
    case False
    then have m: "max 1 (length as) = length as" by (cases as) simp_all
    have "map (transfer_row_cells as) [0..<length as]
        = map (\<lambda>i. (\<lambda>row_num a.
                    map (\<lambda>(col, width). cell_text col width (transfer_column_text a row_num col))
                      (enumerate 0 transfer_col_widths)) i (as ! i)) [0..<length as]"
      by (simp add: transfer_row_cells_def)
    also have "\<dots> = map (\<lambda>(row_num, a).
                    map (\<lambda>(col, width). cell_text col width (transfer_column_text a row_num col))
                      (enumerate 0 transfer_col_widths))
               (enumerate 0 as)"
      by (rule enumerate_map_upt)
    finally show ?thesis using False m by simp
  qed
  have la: "length (table_rows (fst (ack_draw_items_table y its))) = max 1 (length its)"
    using arg_cong [OF a, of length] by simp
  have lt: "length (table_rows (fst (transfer_draw_assets_table y as))) = max 1 (length as)"
    using arg_cong [OF t, of length] by simp
  from a a1 t t1 la lt show ?thesis by simp
qed

theorem table_rows_count_witness:
  "map snd (table_rows (fst (ack_draw_items_table 600 (items (sample_ack 2)))))
     = [[''1'', ''SC-0'', ''Laptop 15/16 <Pro>: a very long descripti'', ''1'', ''01/02/2024''],
        [''2'', ''SC-1'', ''Laptop 15/16 <Pro>: a very long descripti'', ''1'', ''01/02/2024'']]
   \<and> map snd (table_rows (fst (ack_draw_items_table 600 []))) = [[]]
   \<and> map snd (table_rows (fst (transfer_draw_assets_table 600 (assets (sample_transfer 1)))))
     = [[''1'', ''SC-0'', ''Projector'', ''Ceiling projector'', []]]
   \<and> length (table_rows (fst (transfer_draw_assets_table 600 []))) = 1"
  using table_rows_count [of 600 "items (sample_ack 2)" "assets (sample_transfer 1)"]
    table_rows_count [of 600 "[]" "[]"]
  by (simp add: sample_ack_def sample_item_def sample_transfer_def sample_asset_def
      enumerate_eq_zip upt_numeral_unfold ack_col_widths_def transfer_col_widths_def
      ack_column_text_def transfer_column_text_def cell_text_def py_int_def py_take_def
      floor_numeral_div inch_def py_str.simps digit_chars)

subsection \<open>Page breaks outside the tables\<close>

text \<open>The sections between the table and the signature draw no page break; their heights.\<close>

lemma draw_lines_ops:
  "ShowPage \<notin> set (fst (draw_lines y step lines))
   \<and> snd (draw_lines y step lines) = y - of_nat (length lines) * step"
  by (induction lines arbitrary: y) (simp_all add: split_def Let_def algebra_simps)

lemma radio_column_no_break: "ShowPage \<notin> set (radio_column y line_height names selected other)"
  by (auto simp: radio_column_def)

lemma ack_custodian_ops:
  "hd (fst (ack_draw_custodian_details y a)) = Heading y ''Custodian Details:''
   \<and> fst (ack_draw_custodian_details y a) \<noteq> []
   \<and> ShowPage \<notin> set (fst (ack_draw_custodian_details y a))
   \<and> snd (ack_draw_custodian_details y a) = y - 1.03 * inch"
  by (simp add: ack_draw_custodian_details_def Let_def inch_def)

lemma ack_location_ops:
  "ShowPage \<notin> set (fst (ack_draw_location_section y a))
   \<and> snd (ack_draw_location_section y a) = y - 1.91 * inch"
  by (auto simp: ack_draw_location_section_def Let_def inch_def buildings_def
      radio_column_no_break)

lemma ack_declaration_ops:
  "ShowPage \<notin> set (fst (ack_draw_declaration c y))
   \<and> snd (ack_draw_declaration c y)
       = y - of_nat (length (word_wrap c declaration_text (ack_width - 2 * ack_margin)
                               ''Helvetica-BoldOblique'' 9)) * (0.16 * inch) - 0.12 * inch"
  using draw_lines_ops [of y "0.16 * inch"
      "word_wrap c declaration_text (ack_width - 2 * ack_margin) ''Helvetica-BoldOblique'' 9"]
  by (simp add: ack_draw_declaration_def Let_def split_def)

lemma ack_device_ops:
  "ShowPage \<notin> set (fst (ack_draw_device_selection c y a))
   \<and> snd (ack_draw_device_selection c y a)
       = y - of_nat (length (word_wrap c office_text (ack_width - 2 * ack_margin - 0.4 * inch)
                               ''Helvetica'' 8)) * (0.13 * inch) - 1.06 * inch"
  using draw_lines_ops [of "y - 0.28 * inch - 0.18 * inch" "0.13 * inch"
      "word_wrap c office_text (ack_width - 2 * ack_margin - 0.4 * inch) ''Helvetica'' 8"]
  by (simp add: ack_draw_device_selection_def Let_def split_def inch_def)

lemma ack_signature_ops:
  "fst (ack_draw_signature y) =
     (if y < 1.3 * inch then [ShowPage] else []) @
     [Heading (if y < 1.3 * inch then ack_height - ack_margin else y) ''Employee Signature:'',
      SignatureBox ack_margin
        ((if y < 1.3 * inch then ack_height - ack_margin else y) - 0.12 * inch - 1 * inch)
        (ack_margin + 2.2 * inch)
        ((if y < 1.3 * inch then ack_height - ack_margin else y) - 0.12 * inch),
      TextLine ((if y < 1.3 * inch then ack_height - ack_margin else y) - 0.12 * inch - 1 * inch
                 - 0.12 * inch)
        ''Click here to sign in Adobe Acrobat'']"
  by (simp add: ack_draw_signature_def Let_def)

lemma transfer_signature_ops:
  "fst (transfer_draw_signature y) =
     (if y < 1.5 * inch then [ShowPage] else []) @
     [Heading (if y < 1.5 * inch then transfer_height - transfer_margin else y) ''Signature :'',
      SignatureBox transfer_margin
        ((if y < 1.5 * inch then transfer_height - transfer_margin else y) - 0.12 * inch
           - 0.9 * inch)
        (transfer_margin + 2.2 * inch)
        ((if y < 1.5 * inch then transfer_height - transfer_margin else y) - 0.12 * inch),
      TextLine ((if y < 1.5 * inch then transfer_height - transfer_margin else y) - 0.12 * inch
                 - 0.9 * inch - 0.12 * inch)
        ''Click here to sign in Adobe Acrobat'']"
  by (simp add: transfer_draw_signature_def Let_def)

lemma transfer_party_ops:
  "ShowPage \<notin> set (fst (transfer_draw_party c y caption name dept emp))
   \<and> snd (transfer_draw_party c y caption name dept emp) = y - 1.07 * inch"
  by (simp add: transfer_draw_party_def Let_def inch_def)

lemma transfer_header_ops:
  "ShowPage \<notin> set (fst (transfer_draw_header y)) \<and> snd (transfer_draw_header y) = y - 2.4 * inch"
  by (simp add: transfer_draw_header_def Let_def inch_def)

lemma transfer_declaration_ops:
  "ShowPage \<notin> set (fst (transfer_draw_declaration y))
   \<and> snd (transfer_draw_declaration y) = y - 1.09 * inch"
  using draw_lines_ops [of "y - 0.25 * inch" "0.16 * inch" transfer_declaration_lines]
  by (simp add: transfer_draw_declaration_def Let_def split_def inch_def
      transfer_declaration_lines_def)

lemma transfer_upto_signature_ops:
  "ShowPage \<notin> set (fst (transfer_draw_upto_signature c t))
   \<and> snd (transfer_draw_upto_signature c t)
       = transfer_height - transfer_margin - 6.28 * inch
         - of_nat (max 1 (length (assets t))) * (0.3 * inch)"
  using transfer_header_ops transfer_party_ops transfer_declaration_ops
  by (auto simp: transfer_draw_upto_signature_def Let_def split_def transfer_draw_date_def
      transfer_draw_transferred_from_def transfer_draw_transferred_to_def transfer_table_ops
      transfer_header_height_def transfer_row_height_def inch_def)

text \<open>
  What the Acknowledgment form draws after its table, and the whole Transfer form, around
  their page breaks.
\<close>

lemma ack_after_table_shape:
  "\<exists>blk sg.
     fst (ack_draw_after_table c y a)
       = (if y - 4.5 * inch < ack_bottom_margin then [ShowPage] else []) @ blk
         @ (if (if y - 4.5 * inch < ack_bottom_margin then ack_height - ack_margin else y)
                - 4.12 * inch
                - of_nat (length (word_wrap c declaration_text (ack_width - 2 * ack_margin)
                                    ''Helvetica-BoldOblique'' 9)) * (0.16 * inch)
                - of_nat (length (word_wrap c office_text
                                    (ack_width - 2 * ack_margin - 0.4 * inch)
                                    ''Helvetica'' 8)) * (0.13 * inch) < 1.3 * inch
            then [ShowPage] else []) @ sg
   \<and> ShowPage \<notin> set blk \<and> ShowPage \<notin> set sg \<and> sg \<noteq> []
   \<and> hd blk = Heading (if y - 4.5 * inch < ack_bottom_margin then ack_height - ack_margin else y)
                ''Custodian Details:''
   \<and> hd sg = Heading
        (if (if y - 4.5 * inch < ack_bottom_margin then ack_height - ack_margin else y)
                - 4.12 * inch
                - of_nat (length (word_wrap c declaration_text (ack_width - 2 * ack_margin)
                                    ''Helvetica-BoldOblique'' 9)) * (0.16 * inch)
                - of_nat (length (word_wrap c office_text
                                    (ack_width - 2 * ack_margin - 0.4 * inch)
                                    ''Helvetica'' 8)) * (0.13 * inch) < 1.3 * inch
         then ack_height - ack_margin
         else (if y - 4.5 * inch < ack_bottom_margin then ack_height - ack_margin else y)
                - 4.12 * inch
                - of_nat (length (word_wrap c declaration_text (ack_width - 2 * ack_margin)
                                    ''Helvetica-BoldOblique'' 9)) * (0.16 * inch)
                - of_nat (length (word_wrap c office_text
                                    (ack_width - 2 * ack_margin - 0.4 * inch)
                                    ''Helvetica'' 8)) * (0.13 * inch))
        ''Employee Signature:''"
proof -
  define y0 where "y0 = (if y - 4.5 * inch < ack_bottom_margin then ack_height - ack_margin else y)"
  define s5 where "s5 = ack_draw_custodian_details y0 a"
  define s6 where "s6 = ack_draw_location_section (snd s5) a"
  define s7 where "s7 = ack_draw_declaration c (snd s6)"
  define s8 where "s8 = ack_draw_device_selection c (snd s7) a"
  define ys where "ys = y0 - 4.12 * inch
             - of_nat (length (word_wrap c declaration_text (ack_width - 2 * ack_margin)
                                 ''Helvetica-BoldOblique'' 9)) * (0.16 * inch)
             - of_nat (length (word_wrap c office_text (ack_width - 2 * ack_margin - 0.4 * inch)
                                 ''Helvetica'' 8)) * (0.13 * inch)"
  let ?blk = "fst s5 @ fst s6 @ fst s7 @ fst s8"
  have cur: "snd s8 = ys"
    unfolding s8_def s7_def s6_def s5_def ys_def
    by (simp add: ack_device_ops ack_declaration_ops ack_location_ops ack_custodian_ops inch_def)
  have form: "fst (ack_draw_after_table c y a)
      = (if y - 4.5 * inch < ack_bottom_margin then [ShowPage] else []) @ ?blk
        @ fst (ack_draw_signature (snd s8))"
    unfolding s8_def s7_def s6_def s5_def y0_def
    by (simp add: ack_draw_after_table_def ack_check_page_break_def Let_def split_def)
  have nb: "ShowPage \<notin> set ?blk"
    unfolding s8_def s7_def s6_def s5_def
    by (simp add: ack_device_ops ack_declaration_ops ack_location_ops ack_custodian_ops)
  have h: "hd ?blk = Heading y0 ''Custodian Details:''"
    unfolding s5_def using ack_custodian_ops [of y0 a] by simp
  let ?sg = "[Heading (if ys < 1.3 * inch then ack_height - ack_margin else ys) ''Employee Signature:'',
      SignatureBox ack_margin
        ((if ys < 1.3 * inch then ack_height - ack_margin else ys) - 0.12 * inch - 1 * inch)
        (ack_margin + 2.2 * inch)
        ((if ys < 1.3 * inch then ack_height - ack_margin else ys) - 0.12 * inch),
      TextLine ((if ys < 1.3 * inch then ack_height - ack_margin else ys) - 0.12 * inch - 1 * inch
                 - 0.12 * inch)
        ''Click here to sign in Adobe Acrobat'']"
  have "fst (ack_draw_after_table c y a)
           = (if y - 4.5 * inch < ack_bottom_margin then [ShowPage] else []) @ ?blk
             @ (if ys < 1.3 * inch then [ShowPage] else []) @ ?sg"
    unfolding form cur ack_signature_ops ..
  moreover have "ShowPage \<notin> set ?sg" by simp
  moreover have "?sg \<noteq> []" by simp
  moreover have "hd ?sg = Heading (if ys < 1.3 * inch then ack_height - ack_margin else ys)
                    ''Employee Signature:''" by simp
  ultimately have "\<exists>blk sg.
         fst (ack_draw_after_table c y a)
           = (if y - 4.5 * inch < ack_bottom_margin then [ShowPage] else []) @ blk
             @ (if ys < 1.3 * inch then [ShowPage] else []) @ sg
       \<and> ShowPage \<notin> set blk \<and> ShowPage \<notin> set sg \<and> sg \<noteq> []
       \<and> hd blk = Heading y0 ''Custodian Details:''
       \<and> hd sg = Heading (if ys < 1.3 * inch then ack_height - ack_margin else ys)
                    ''Employee Signature:''"
    using nb h by blast
  then show ?thesis unfolding y0_def ys_def .
qed

lemma transfer_form_shape:
  "\<exists>blk sg.
     fst (transfer_draw_form c t)
       = blk @ (if transfer_height - transfer_margin - 6.28 * inch
                   - of_nat (max 1 (length (assets t))) * (0.3 * inch) < 1.5 * inch
                then [ShowPage] else []) @ sg
   \<and> ShowPage \<notin> set blk \<and> ShowPage \<notin> set sg \<and> sg \<noteq> []
   \<and> hd sg = Heading
        (if transfer_height - transfer_margin - 6.28 * inch
              - of_nat (max 1 (length (assets t))) * (0.3 * inch) < 1.5 * inch
         then transfer_height - transfer_margin
         else transfer_height - transfer_margin - 6.28 * inch
              - of_nat (max 1 (length (assets t))) * (0.3 * inch))
        ''Signature :''"
proof -
  define ys where "ys = transfer_height - transfer_margin - 6.28 * inch
                - of_nat (max 1 (length (assets t))) * (0.3 * inch)"
  let ?blk = "fst (transfer_draw_upto_signature c t)"
  let ?sg = "[Heading (if ys < 1.5 * inch then transfer_height - transfer_margin else ys) ''Signature :'',
      SignatureBox transfer_margin
        ((if ys < 1.5 * inch then transfer_height - transfer_margin else ys) - 0.12 * inch
           - 0.9 * inch)
        (transfer_margin + 2.2 * inch)
        ((if ys < 1.5 * inch then transfer_height - transfer_margin else ys) - 0.12 * inch),
      TextLine ((if ys < 1.5 * inch then transfer_height - transfer_margin else ys) - 0.12 * inch
                 - 0.9 * inch - 0.12 * inch)
        ''Click here to sign in Adobe Acrobat'']"
  have cur: "snd (transfer_draw_upto_signature c t) = ys"
    unfolding ys_def using transfer_upto_signature_ops [of c t] by simp
  have "fst (transfer_draw_form c t)
          = ?blk @ fst (transfer_draw_signature (snd (transfer_draw_upto_signature c t)))"
    by (simp add: transfer_draw_form_def split_def Let_def)
  then have "fst (transfer_draw_form c t)
          = ?blk @ (if ys < 1.5 * inch then [ShowPage] else []) @ ?sg"
    unfolding cur transfer_signature_ops .
  moreover have "ShowPage \<notin> set ?blk" using transfer_upto_signature_ops [of c t] by simp
  moreover have "ShowPage \<notin> set ?sg" by simp
  moreover have "?sg \<noteq> []" by simp
  moreover have "hd ?sg = Heading (if ys < 1.5 * inch then transfer_height - transfer_margin else ys)
                       ''Signature :''" by simp
  ultimately have "\<exists>blk sg.
            fst (transfer_draw_form c t) = blk @ (if ys < 1.5 * inch then [ShowPage] else []) @ sg
          \<and> ShowPage \<notin> set blk \<and> ShowPage \<notin> set sg \<and> sg \<noteq> []
          \<and> hd sg = Heading (if ys < 1.5 * inch then transfer_height - transfer_margin else ys)
                       ''Signature :''"
    by blast
  then show ?thesis unfolding ys_def .
qed

lemma ack_form_parts:
  "fst (ack_draw_form c a)
     = fst (ack_draw_upto_table a) @ fst (ack_draw_after_table c (snd (ack_draw_upto_table a)) a)"
  by (simp add: ack_draw_form_def split_def Let_def)

text \<open>
  Claim C3 (as amended). After its table the Acknowledgment form checks for a page break
  at two places: once before the custodian, location, declaration and device block, with
  the fixed budget of 4.5 inch (\<open>cursor - 4.5 inch < bottom_margin\<close>), and once before
  the signature block (\<open>cursor < 1.3 inch\<close>, the cursor being 4.12 inch and the wrapped
  lines below the start of the block); nothing else drawn there breaks the page. The
  Transfer form checks only before its signature block (\<open>cursor < 1.5 inch\<close>).
\<close>

theorem page_break_checks:
  "(let y0 = (if y - 4.5 * inch < ack_bottom_margin then ack_height - ack_margin else y);
        ys = y0 - 4.12 * inch
             - of_nat (length (word_wrap c declaration_text (ack_width - 2 * ack_margin)
                                 ''Helvetica-BoldOblique'' 9)) * (0.16 * inch)
             - of_nat (length (word_wrap c office_text (ack_width - 2 * ack_margin - 0.4 * inch)
                                 ''Helvetica'' 8)) * (0.13 * inch)
    in \<exists>blk sg.
         fst (ack_draw_after_table c y a)
           = (if y - 4.5 * inch < ack_bottom_margin then [ShowPage] else []) @ blk
             @ (if ys < 1.3 * inch then [ShowPage] else []) @ sg
       \<and> ShowPage \<notin> set blk \<and> ShowPage \<notin> set sg \<and> sg \<noteq> []
       \<and> hd blk = Heading y0 ''Custodian Details:''
       \<and> hd sg = Heading (if ys < 1.3 * inch then ack_height - ack_margin else ys)
                    ''Employee Signature:'')
   \<and> fst (ack_draw_form c a)
       = fst (ack_draw_upto_table a) @ fst (ack_draw_after_table c (snd (ack_draw_upto_table a)) a)
   \<and> (let ys = transfer_height - transfer_margin - 6.28 * inch
                - of_nat (max 1 (length (assets t))) * (0.3 * inch)
       in \<exists>blk sg.
            fst (transfer_draw_form c t) = blk @ (if ys < 1.5 * inch then [ShowPage] else []) @ sg
          \<and> ShowPage \<notin> set blk \<and> ShowPage \<notin> set sg \<and> sg \<noteq> []
          \<and> hd sg = Heading (if ys < 1.5 * inch then transfer_height - transfer_margin else ys)
                       ''Signature :'')"
  using ack_after_table_shape [of c y a] transfer_form_shape [of c t] ack_form_parts [of c a]
  unfolding Let_def by blast

lemma wrap_declaration_sample:
  "length (word_wrap half_em_width declaration_text (ack_width - 2 * ack_margin)
             ''Helvetica-BoldOblique'' 9) = 2"
  by (simp add: word_wrap_def py_split_def declaration_text_def is_space_def whitespace_def
      half_em_width_def layout_consts)

lemma wrap_office_sample:
  "length (word_wrap half_em_width office_text (ack_width - 2 * ack_margin - 0.4 * inch)
             ''Helvetica'' 8) = 2"
  by (simp add: word_wrap_def py_split_def office_text_def is_space_def whitespace_def
      half_em_width_def layout_consts)

theorem page_break_checks_witness:
  "(\<exists>blk sg. fst (ack_draw_after_table half_em_width 200 (sample_ack 1)) = [ShowPage] @ blk @ sg
       \<and> ShowPage \<notin> set blk \<and> ShowPage \<notin> set sg
       \<and> hd blk = Heading (ack_height - ack_margin) ''Custodian Details:'')
   \<and> (\<exists>blk sg. fst (transfer_draw_form half_em_width (sample_transfer 25)) = blk @ [ShowPage] @ sg
       \<and> ShowPage \<notin> set blk \<and> ShowPage \<notin> set sg
       \<and> hd sg = Heading (transfer_height - transfer_margin) ''Signature :'')"
proof -
  note inst = page_break_checks [of 200 half_em_width "sample_ack 1" "sample_transfer 25"]
  have c1: "(200::rat) - 4.5 * inch < ack_bottom_margin" by (simp add: layout_consts)
  have c2: "\<not> ack_height - ack_margin - 4.12 * inch - of_nat 2 * (0.16 * inch)
               - of_nat 2 * (0.13 * inch) < 1.3 * inch"
    by (simp add: layout_consts)
  have c3: "transfer_height - transfer_margin - 6.28 * inch
              - of_nat (max 1 (length (assets (sample_transfer 25)))) * (0.3 * inch) < 1.5 * inch"
    by (simp add: layout_consts sample_transfer_def)
  from inst have a: "\<exists>blk sg. fst (ack_draw_after_table half_em_width 200 (sample_ack 1))
         = [ShowPage] @ blk @ sg
       \<and> ShowPage \<notin> set blk \<and> ShowPage \<notin> set sg
       \<and> hd blk = Heading (ack_height - ack_margin) ''Custodian Details:''"
    unfolding Let_def wrap_declaration_sample wrap_office_sample using c1 c2 by auto
  from inst have t: "\<exists>blk sg. fst (transfer_draw_form half_em_width (sample_transfer 25))
         = blk @ [ShowPage] @ sg
       \<and> ShowPage \<notin> set blk \<and> ShowPage \<notin> set sg
       \<and> hd sg = Heading (transfer_height - transfer_margin) ''Signature :''"
    unfolding Let_def using c3 by auto
  from a t show ?thesis by blast
qed

lemma ack_upto_table_sample:
  "snd (ack_draw_upto_table (sample_ack 10)) = ack_height - ack_margin - 5.7 * inch
   \<and> ShowPage \<notin> set (fst (ack_draw_upto_table (sample_ack 10)))"
  by (simp add: ack_draw_upto_table_def ack_draw_header_def ack_draw_date_def
      ack_draw_items_table_def ack_draw_row_cases sample_ack_def upt_numeral_unfold
      Let_def split_def layout_consts)

lemma break_before_last_block:
  "ShowPage \<notin> set pre \<Longrightarrow> ShowPage \<notin> set sg \<Longrightarrow> sg \<noteq> [] \<Longrightarrow>
   filter ((=) ShowPage) (pre @ [ShowPage] @ sg) = [ShowPage]
   \<and> take 2 (dropWhile ((\<noteq>) ShowPage) (pre @ [ShowPage] @ sg)) = [ShowPage, hd sg]"
proof -
  assume a: "ShowPage \<notin> set pre" "ShowPage \<notin> set sg" "sg \<noteq> []"
  from a(1) have p: "filter ((=) ShowPage) pre = []" by (induction pre) auto
  from a(2) have s: "filter ((=) ShowPage) sg = []" by (induction sg) auto
  from a(1) have d: "dropWhile ((\<noteq>) ShowPage) (pre @ [ShowPage] @ sg) = ShowPage # sg"
    by (induction pre) auto
  from a(3) have "take 2 (ShowPage # sg) = [ShowPage, hd sg]"
    by (cases sg) simp_all
  with p s d show ?thesis by simp
qed

text \<open>
  The claim as stated, with one check for the Acknowledgment form and none after the
  table but the one before the custodian block, fails for ten items: that check draws no
  page break, and the only page break of the render is the one of the signature block.
\<close>

theorem ack_signature_page_break:
  "fst (ack_check_page_break (snd (ack_draw_upto_table (sample_ack 10))) (4.5 * inch)) = []
   \<and> filter ((=) ShowPage) (fst (ack_draw_form half_em_width (sample_ack 10))) = [ShowPage]
   \<and> take 2 (dropWhile ((\<noteq>) ShowPage) (fst (ack_draw_form half_em_width (sample_ack 10))))
       = [ShowPage, Heading (ack_height - ack_margin) ''Employee Signature:'']"
proof -
  let ?V = "ack_height - ack_margin - 5.7 * inch"
  have v: "snd (ack_draw_upto_table (sample_ack 10)) = ?V"
    and nb: "ShowPage \<notin> set (fst (ack_draw_upto_table (sample_ack 10)))"
    using ack_upto_table_sample by simp_all
  have nochk: "\<not> ?V - 4.5 * inch < ack_bottom_margin" by (simp add: layout_consts)
  have chk: "?V - 4.12 * inch - of_nat 2 * (0.16 * inch) - of_nat 2 * (0.13 * inch) < 1.3 * inch"
    by (simp add: layout_consts)
  from ack_after_table_shape [of half_em_width ?V "sample_ack 10"]
  obtain blk sg where
    sh: "fst (ack_draw_after_table half_em_width ?V (sample_ack 10)) = blk @ [ShowPage] @ sg"
      "ShowPage \<notin> set blk" "ShowPage \<notin> set sg" "sg \<noteq> []"
      "hd sg = Heading (ack_height - ack_margin) ''Employee Signature:''"
    unfolding wrap_declaration_sample wrap_office_sample using nochk chk by auto
  have form: "fst (ack_draw_form half_em_width (sample_ack 10))
      = (fst (ack_draw_upto_table (sample_ack 10)) @ blk) @ [ShowPage] @ sg"
    unfolding ack_form_parts v sh(1) by simp
  have pre: "ShowPage \<notin> set (fst (ack_draw_upto_table (sample_ack 10)) @ blk)"
    using nb sh(2) by simp
  have first: "fst (ack_check_page_break (snd (ack_draw_upto_table (sample_ack 10))) (4.5 * inch)) = []"
    unfolding v using nochk by (simp add: ack_check_page_break_def)
  from break_before_last_block [OF pre sh(3) sh(4)] first show ?thesis
    unfolding form sh(5) by simp
qed

subsection \<open>Submissions without rows\<close>

lemma get_unique_filepath_returns:
  assumes "finite (dom fs)"
  shows "\<exists>p. get_unique_filepath fs output_dir filename = Some p \<and> fs p = None"
proof (cases "fs (path_join output_dir filename) = None")
  case True
  then show ?thesis by (simp add: get_unique_filepath_def)
next
  case False
  from get_unique_filepath_collision [OF assms False] show ?thesis by blast
qed

lemma content_add_signature_field: "content (add_signature_field ops rect) = ops"
  by (simp add: add_signature_field_def split_def)

text \<open>Only the tables draw data rows.\<close>

lemma table_rows_none: "(\<forall>y cells. DataRow y cells \<notin> set ops) \<Longrightarrow> table_rows ops = []"
proof (induction ops)
  case Nil
  then show ?case by (simp add: table_rows_def)
next
  case (Cons op ops)
  then have "table_rows ops = []" by simp
  moreover from Cons.prems have "row_at op = []" by (cases op) auto
  ultimately show ?case by (simp add: table_rows_def)
qed

lemma draw_lines_no_row: "DataRow y' cells \<notin> set (fst (draw_lines y step lines))"
  by (induction lines arbitrary: y) (simp_all add: split_def Let_def)

lemma radio_column_no_row: "DataRow y' cells \<notin> set (radio_column y line_height names selected other)"
  by (auto simp: radio_column_def)

lemma ack_custodian_no_row: "DataRow y' cells \<notin> set (fst (ack_draw_custodian_details y a))"
  by (simp add: ack_draw_custodian_details_def Let_def)

lemma ack_location_no_row: "DataRow y' cells \<notin> set (fst (ack_draw_location_section y a))"
  by (auto simp: ack_draw_location_section_def Let_def radio_column_no_row)

lemma ack_declaration_no_row: "DataRow y' cells \<notin> set (fst (ack_draw_declaration c y))"
  by (simp add: ack_draw_declaration_def Let_def split_def draw_lines_no_row)

lemma ack_device_no_row: "DataRow y' cells \<notin> set (fst (ack_draw_device_selection c y a))"
  by (simp add: ack_draw_device_selection_def Let_def split_def draw_lines_no_row)

lemma ack_signature_no_row: "DataRow y' cells \<notin> set (fst (ack_draw_signature y))"
  by (simp add: ack_signature_ops)

lemma ack_after_table_no_row: "DataRow y' cells \<notin> set (fst (ack_draw_after_table c y a))"
  by (simp add: ack_draw_after_table_def ack_check_page_break_def Let_def split_def
      ack_custodian_no_row ack_location_no_row ack_declaration_no_row ack_device_no_row
      ack_signature_no_row)

lemma ack_upto_table_parts:
  "fst (ack_draw_upto_table a)
     = fst (ack_draw_header (ack_height - ack_margin))
       @ [DateStamp (snd (ack_draw_header (ack_height - ack_margin)))]
       @ fst (ack_draw_items_table (snd (ack_draw_header (ack_height - ack_margin))) (items a))"
  by (simp add: ack_draw_upto_table_def ack_draw_date_def Let_def split_def)

lemma ack_header_no_row: "DataRow y' cells \<notin> set (fst (ack_draw_header y))"
  by (simp add: ack_draw_header_def Let_def)

lemma table_rows_ack_form:
  "table_rows (fst (ack_draw_form c a))
     = table_rows (fst (ack_draw_items_table (snd (ack_draw_header (ack_height - ack_margin)))
                          (items a)))"
proof -
  have h: "table_rows (fst (ack_draw_header (ack_height - ack_margin))) = []"
    by (rule table_rows_none) (simp add: ack_header_no_row)
  have d: "table_rows [DateStamp (snd (ack_draw_header (ack_height - ack_margin)))] = []"
    by (simp add: table_rows_def)
  have r: "table_rows (fst (ack_draw_after_table c (snd (ack_draw_upto_table a)) a)) = []"
    by (rule table_rows_none) (simp add: ack_after_table_no_row)
  show ?thesis
    unfolding ack_form_parts ack_upto_table_parts table_rows_append h d r by simp
qed

lemma transfer_party_no_row:
  "DataRow y' cells \<notin> set (fst (transfer_draw_party c y caption name dept emp))"
  by (simp add: transfer_draw_party_def Let_def)

lemma transfer_header_no_row: "DataRow y' cells \<notin> set (fst (transfer_draw_header y))"
  by (simp add: transfer_draw_header_def Let_def)

lemma transfer_declaration_no_row: "DataRow y' cells \<notin> set (fst (transfer_draw_declaration y))"
  by (simp add: transfer_draw_declaration_def Let_def split_def draw_lines_no_row)

lemma transfer_signature_no_row: "DataRow y' cells \<notin> set (fst (transfer_draw_signature y))"
  by (simp add: transfer_signature_ops)

lemma transfer_form_parts:
  "\<exists>pre post y. fst (transfer_draw_form c t)
       = pre @ fst (transfer_draw_assets_table y (assets t)) @ post
     \<and> (\<forall>y' cells. DataRow y' cells \<notin> set pre)
     \<and> (\<forall>y' cells. DataRow y' cells \<notin> set post)"
proof -
  define s1 where "s1 = transfer_draw_header (transfer_height - transfer_margin)"
  define s3 where "s3 = transfer_draw_party c (snd s1) ''Transferred from:''
       (from_name t) (from_department t) (from_emp_id t)"
  define s4 where "s4 = transfer_draw_assets_table (snd s3) (assets t)"
  define s5 where "s5 = transfer_draw_party c (snd s4) ''Transferred to:''
       (to_name t) (to_department t) (to_emp_id t)"
  define s6 where "s6 = transfer_draw_declaration (snd s5)"
  let ?pre = "fst s1 @ [DateStamp (snd s1)] @ fst s3"
  let ?post = "fst s5 @ fst s6 @ fst (transfer_draw_signature (snd s6))"
  have "fst (transfer_draw_form c t) = ?pre @ fst s4 @ ?post"
    unfolding s1_def s3_def s4_def s5_def s6_def
    by (simp add: transfer_draw_form_def transfer_draw_upto_signature_def transfer_draw_date_def
        transfer_draw_transferred_from_def transfer_draw_transferred_to_def Let_def split_def)
  moreover have "\<forall>y' cells. DataRow y' cells \<notin> set ?pre"
    unfolding s1_def s3_def by (simp add: transfer_header_no_row transfer_party_no_row)
  moreover have "\<forall>y' cells. DataRow y' cells \<notin> set ?post"
    unfolding s5_def s6_def
    by (simp add: transfer_party_no_row transfer_declaration_no_row transfer_signature_no_row)
  ultimately show ?thesis unfolding s4_def by blast
qed

lemma table_rows_transfer_form:
  "\<exists>y. table_rows (fst (transfer_draw_form c t))
         = table_rows (fst (transfer_draw_assets_table y (assets t)))"
proof -
  from transfer_form_parts [of c t] obtain pre post y where
    p: "fst (transfer_draw_form c t) = pre @ fst (transfer_draw_assets_table y (assets t)) @ post"
      "\<forall>y' cells. DataRow y' cells \<notin> set pre" "\<forall>y' cells. DataRow y' cells \<notin> set post"
    by blast
  from p(2) have "table_rows pre = []" by (rule table_rows_none)
  moreover from p(3) have "table_rows post = []" by (rule table_rows_none)
  ultimately show ?thesis unfolding p(1) table_rows_append by auto
qed

lemma ack_table_empty_rows: "map snd (table_rows (fst (ack_draw_items_table y []))) = [[]]"
  unfolding ack_table_ops ack_rows_cells by (simp add: table_rows_def ack_row_cells_def)

lemma transfer_table_empty_rows: "map snd (table_rows (fst (transfer_draw_assets_table y []))) = [[]]"
  by (simp add: transfer_table_ops table_rows_def transfer_row_cells_def)

lemma get_items_empty:
  "get_items rows = [] \<longleftrightarrow>
     (\<forall>w\<in>set rows. py_strip (store_code w) = [] \<and> py_strip (description w) = []
                     \<and> py_strip (qty w) = [] \<and> py_strip (purchase_date w) = [])"
  by (auto simp: get_items_def filter_empty_conv)

lemma get_assets_empty:
  "get_assets rows = [] \<longleftrightarrow>
     (\<forall>w\<in>set rows. py_strip (asset_store_code w) = [] \<and> py_strip (asset_name w) = []
                     \<and> py_strip (asset_description w) = [] \<and> py_strip (old_asset_no w) = [])"
  by (auto simp: get_assets_def filter_empty_conv)

text \<open>
  Claim C2 (as amended). A submission without data rows is rejected by the forms, not by
  \<^verbatim>\<open>generate\<close>: when no typed row has a non-empty entry after stripping, the Generate
  handler of either form shows its warning and returns, drawing nothing and leaving the
  files as they are. \<^verbatim>\<open>generate\<close> itself does not look at the number of rows: called
  with an empty row list it renders the form with one data row without texts and writes
  the file at a path that did not exist.
\<close>

theorem empty_rows_rejected_by_forms:
  "(get_items (items entries) = [] \<longrightarrow>
       ack_generate_pdf c fs output_dir entries
         = Some (Warning ''Please add at least one item.'', fs))
   \<and> (get_assets (assets tentries) = [] \<longrightarrow>
       transfer_generate_pdf c fs output_dir tentries
         = Some (Warning ''Please add at least one asset.'', fs))
   \<and> (get_items (items entries) = [] \<longleftrightarrow>
        (\<forall>w\<in>set (items entries). py_strip (store_code w) = [] \<and> py_strip (description w) = []
                     \<and> py_strip (qty w) = [] \<and> py_strip (purchase_date w) = []))
   \<and> (get_assets (assets tentries) = [] \<longleftrightarrow>
        (\<forall>w\<in>set (assets tentries). py_strip (asset_store_code w) = []
              \<and> py_strip (asset_name w) = [] \<and> py_strip (asset_description w) = []
              \<and> py_strip (old_asset_no w) = []))
   \<and> (finite (dom fs) \<and> items a = [] \<longrightarrow>
        (\<exists>p doc. ack_generate c fs output_dir a None = Some (p, fs(p \<mapsto> doc))
            \<and> fs p = None \<and> map snd (table_rows (content doc)) = [[]]))
   \<and> (finite (dom fs) \<and> assets t = [] \<longrightarrow>
        (\<exists>p doc. transfer_generate c fs output_dir t None = Some (p, fs(p \<mapsto> doc))
            \<and> fs p = None \<and> map snd (table_rows (content doc)) = [[]]))"
proof (intro conjI impI)
  assume "get_items (items entries) = []"
  then show "ack_generate_pdf c fs output_dir entries
         = Some (Warning ''Please add at least one item.'', fs)"
    by (simp add: ack_generate_pdf_def)
next
  assume "get_assets (assets tentries) = []"
  then show "transfer_generate_pdf c fs output_dir tentries
         = Some (Warning ''Please add at least one asset.'', fs)"
    by (simp add: transfer_generate_pdf_def)
next
  show "get_items (items entries) = [] \<longleftrightarrow>
        (\<forall>w\<in>set (items entries). py_strip (store_code w) = [] \<and> py_strip (description w) = []
                     \<and> py_strip (qty w) = [] \<and> py_strip (purchase_date w) = [])"
    by (rule get_items_empty)
next
  show "get_assets (assets tentries) = [] \<longleftrightarrow>
        (\<forall>w\<in>set (assets tentries). py_strip (asset_store_code w) = []
              \<and> py_strip (asset_name w) = [] \<and> py_strip (asset_description w) = []
              \<and> py_strip (old_asset_no w) = [])"
    by (rule get_assets_empty)
next
  assume h: "finite (dom fs) \<and> items a = []"
  then obtain p where p: "get_unique_filepath fs output_dir (ack_generate_filename a) = Some p"
      "fs p = None"
    using get_unique_filepath_returns [of fs output_dir "ack_generate_filename a"] by blast
  let ?doc = "add_signature_field (fst (ack_draw_form c a) @ [ShowPage]) (snd (ack_draw_form c a))"
  have g: "ack_generate c fs output_dir a None = Some (p, fs(p \<mapsto> ?doc))"
    by (rule ack_generate_writes) (simp add: p(1))
  have "table_rows [ShowPage] = []" by (simp add: table_rows_def)
  then have "map snd (table_rows (content ?doc)) = [[]]"
    using h by (simp add: content_add_signature_field table_rows_ack_form ack_table_empty_rows)
  with g p(2) show "\<exists>p doc. ack_generate c fs output_dir a None = Some (p, fs(p \<mapsto> doc))
            \<and> fs p = None \<and> map snd (table_rows (content doc)) = [[]]"
    by (intro exI [of _ p] exI [of _ ?doc]) simp
next
  assume h: "finite (dom fs) \<and> assets t = []"
  then obtain p where p: "get_unique_filepath fs output_dir (transfer_generate_filename t) = Some p"
      "fs p = None"
    using get_unique_filepath_returns [of fs output_dir "transfer_generate_filename t"] by blast
  let ?doc = "add_signature_field (fst (transfer_draw_form c t) @ [ShowPage])
                (snd (transfer_draw_form c t))"
  have g: "transfer_generate c fs output_dir t None = Some (p, fs(p \<mapsto> ?doc))"
    by (rule transfer_generate_writes) (simp add: p(1))
  obtain y where "table_rows (fst (transfer_draw_form c t))
         = table_rows (fst (transfer_draw_assets_table y (assets t)))"
    using table_rows_transfer_form by blast
  moreover have "table_rows [ShowPage] = []" by (simp add: table_rows_def)
  ultimately have "map snd (table_rows (content ?doc)) = [[]]"
    using h by (simp add: content_add_signature_field transfer_table_empty_rows)
  with g p(2) show "\<exists>p doc. transfer_generate c fs output_dir t None = Some (p, fs(p \<mapsto> doc))
            \<and> fs p = None \<and> map snd (table_rows (content doc)) = [[]]"
    by (intro exI [of _ p] exI [of _ ?doc]) simp
qed

theorem empty_rows_rejected_by_forms_witness:
  "ack_generate_pdf half_em_width Map.empty ''output''
       ((sample_ack 0)\<lparr>items := [\<lparr>store_code = [CHR 0xA0, CHR '' ''], description = [], qty = [],
                                    purchase_date = []\<rparr>]\<rparr>)
     = Some (Warning ''Please add at least one item.'', Map.empty)
   \<and> transfer_generate_pdf half_em_width Map.empty ''output'' (sample_transfer 0)
     = Some (Warning ''Please add at least one asset.'', Map.empty)
   \<and> (\<exists>p doc. ack_generate half_em_width Map.empty ''output'' (sample_ack 0) None
                  = Some (p, [p \<mapsto> doc])
          \<and> map snd (table_rows (content doc)) = [[]])
   \<and> (\<exists>p doc. transfer_generate half_em_width Map.empty ''output'' (sample_transfer 0) None
                  = Some (p, [p \<mapsto> doc])
          \<and> map snd (table_rows (content doc)) = [[]])"
proof -
  let ?e = "(sample_ack 0)\<lparr>items := [\<lparr>store_code = [CHR 0xA0, CHR '' ''], description = [], qty = [],
                                    purchase_date = []\<rparr>]\<rparr>"
  note inst = empty_rows_rejected_by_forms [of ?e half_em_width Map.empty "''output''"
      "sample_transfer 0" "sample_ack 0" "sample_transfer 0"]
  have h1: "get_items (items ?e) = []"
    by (simp add: get_items_def py_strip_def is_space_def whitespace_def)
  have h2: "get_assets (assets (sample_transfer 0)) = []"
    by (simp add: get_assets_def sample_transfer_def)
  have h3: "finite (dom (Map.empty :: files)) \<and> items (sample_ack 0) = []"
    by (simp add: sample_ack_def)
  have h4: "finite (dom (Map.empty :: files)) \<and> assets (sample_transfer 0) = []"
    by (simp add: sample_transfer_def)
  from inst [THEN conjunct1] h1
  have a: "ack_generate_pdf half_em_width Map.empty ''output'' ?e
     = Some (Warning ''Please add at least one item.'', Map.empty)" by (rule mp)
  from inst [THEN conjunct2, THEN conjunct1] h2
  have b: "transfer_generate_pdf half_em_width Map.empty ''output'' (sample_transfer 0)
     = Some (Warning ''Please add at least one asset.'', Map.empty)" by (rule mp)
  from inst [THEN conjunct2, THEN conjunct2, THEN conjunct2, THEN conjunct2, THEN conjunct1] h3
  have c: "\<exists>p doc. ack_generate half_em_width Map.empty ''output'' (sample_ack 0) None
                  = Some (p, [p \<mapsto> doc])
          \<and> Map.empty p = (None :: pdf option)
          \<and> map snd (table_rows (content doc)) = [[]]" by (rule mp)
  from inst [THEN conjunct2, THEN conjunct2, THEN conjunct2, THEN conjunct2, THEN conjunct2] h4
  have d: "\<exists>p doc. transfer_generate half_em_width Map.empty ''output''
                   (sample_transfer 0) None
                  = Some (p, [p \<mapsto> doc])
          \<and> Map.empty p = (None :: pdf option)
          \<and> map snd (table_rows (content doc)) = [[]]" by (rule mp)
  from a b c d show ?thesis by auto
qed

text \<open>
  The claim as stated, that \<^verbatim>\<open>generate\<close> fails for an empty row list and writes no file,
  fails on the empty sample submissions: both generators return the path and write the
  document.
\<close>

theorem generate_accepts_empty_rows:
  "items (sample_ack 0) = []
   \<and> ack_generate half_em_width Map.empty ''output'' (sample_ack 0) None
     = Some (''output/Unknown - A. User - acknowledgement form Asset.pdf'',
             [''output/Unknown - A. User - acknowledgement form Asset.pdf'' \<mapsto>
                add_signature_field (fst (ack_draw_form half_em_width (sample_ack 0)) @ [ShowPage])
                  (snd (ack_draw_form half_em_width (sample_ack 0)))])
   \<and> map snd (table_rows (fst (ack_draw_form half_em_width (sample_ack 0)))) = [[]]
   \<and> assets (sample_transfer 0) = []
   \<and> transfer_generate half_em_width Map.empty ''output'' (sample_transfer 0) None
     = Some (''output/Asset Transfer - From Unknown-Unknown to 77-B_C.pdf'',
             [''output/Asset Transfer - From Unknown-Unknown to 77-B_C.pdf'' \<mapsto>
                add_signature_field
                  (fst (transfer_draw_form half_em_width (sample_transfer 0)) @ [ShowPage])
                  (snd (transfer_draw_form half_em_width (sample_transfer 0)))])"
proof -
  have i: "items (sample_ack 0) = []" by (simp add: sample_ack_def)
  have j: "assets (sample_transfer 0) = []" by (simp add: sample_transfer_def)
  have fa: "ack_generate_filename (sample_ack 0)
      = ''Unknown - A. User - acknowledgement form Asset.pdf''"
    by (simp add: ack_generate_filename_def sample_ack_def strip_or_unknown_def
        py_strip_def is_space_def whitespace_def clean_map invalid_chars_def)
  have ft: "transfer_generate_filename (sample_transfer 0)
      = ''Asset Transfer - From Unknown-Unknown to 77-B_C.pdf''"
    by (simp add: transfer_generate_filename_def sample_transfer_def strip_or_unknown_def
        py_strip_def is_space_def whitespace_def clean_map invalid_chars_def)
  have a: "ack_generate half_em_width Map.empty ''output'' (sample_ack 0) None
     = Some (''output/Unknown - A. User - acknowledgement form Asset.pdf'',
             [''output/Unknown - A. User - acknowledgement form Asset.pdf'' \<mapsto>
                add_signature_field (fst (ack_draw_form half_em_width (sample_ack 0)) @ [ShowPage])
                  (snd (ack_draw_form half_em_width (sample_ack 0)))])"
    by (rule ack_generate_writes) (simp add: fa get_unique_filepath_def path_join_def)
  have t: "transfer_generate half_em_width Map.empty ''output'' (sample_transfer 0) None
     = Some (''output/Asset Transfer - From Unknown-Unknown to 77-B_C.pdf'',
             [''output/Asset Transfer - From Unknown-Unknown to 77-B_C.pdf'' \<mapsto>
                add_signature_field
                  (fst (transfer_draw_form half_em_width (sample_transfer 0)) @ [ShowPage])
                  (snd (transfer_draw_form half_em_width (sample_transfer 0)))])"
    by (rule transfer_generate_writes) (simp add: ft get_unique_filepath_def path_join_def)
  have r: "map snd (table_rows (fst (ack_draw_form half_em_width (sample_ack 0)))) = [[]]"
    by (simp add: table_rows_ack_form i ack_table_empty_rows)
  from i j a t r show ?thesis by simp
qed

end
